theory Spec2Isabelle
  imports Complex_Main "HOL-Library.FSet" "HOL-Library.AList"
begin

section \<open>Python values, errors and built-ins\<close>

text \<open>
  The module \<^verbatim>\<open>venn/_venn.py\<close> is embedded function by function. Every exception the
  code can raise is a value: pure functions return \<open>py_error + 'a\<close> (\<open>Inl\<close> is the raise),
  drawing functions return an \<open>outcome\<close> that carries the drawing surface as it is at the
  moment of the return or of the raise. Each error carries its message; for exceptions
  raised by Python itself the message is an abbreviation.
\<close>

datatype py_error =
    TypeError string
  | ValueError string
  | KeyError string
  | IndexError string
  | ZeroDivisionError string
  | NotImplementedError string

subsection \<open>\<^verbatim>\<open>bin\<close>, \<^verbatim>\<open>str.zfill\<close>, \<^verbatim>\<open>str\<close> and \<^verbatim>\<open>int\<close>\<close>

text \<open>\<^verbatim>\<open>bin(i)[2:]\<close> for \<open>i \<ge> 0\<close>: the binary digits of \<open>i\<close>, most significant first.\<close>

fun bin_digits :: "nat \<Rightarrow> string" where
  "bin_digits i =
     (if i < 2 then [if i = 0 then CHR ''0'' else CHR ''1'']
      else bin_digits (i div 2) @ [if i mod 2 = 0 then CHR ''0'' else CHR ''1''])"

declare bin_digits.simps [simp del]

text \<open>\<^verbatim>\<open>s.zfill(width)\<close>: pads with zeros on the left, after a leading sign if there is one.\<close>

definition zfill :: "string \<Rightarrow> nat \<Rightarrow> string" where
  "zfill s width =
     (case s of
        c # cs \<Rightarrow>
          if c = CHR ''+'' \<or> c = CHR ''-''
          then c # replicate (width - length s) CHR ''0'' @ cs
          else replicate (width - length s) CHR ''0'' @ s
      | [] \<Rightarrow> replicate width CHR ''0'')"

text \<open>\<^verbatim>\<open>str(n)\<close> of an integer, which is also what an empty replacement field prints.\<close>

fun str_nat :: "nat \<Rightarrow> string" where
  "str_nat n =
     (if n < 10 then [char_of (48 + n)]
      else str_nat (n div 10) @ [char_of (48 + n mod 10)])"

declare str_nat.simps [simp del]

definition str_int :: "int \<Rightarrow> string" where
  "str_int v = (if v < 0 then CHR ''-'' # str_nat (nat (- v)) else str_nat (nat v))"

text \<open>
  \<^verbatim>\<open>int(s)\<close> of a string, on ASCII: surrounding whitespace is dropped, one sign is allowed,
  and the rest must be decimal digits, where single underscores may separate digits.
  Anything else raises \<^verbatim>\<open>ValueError\<close>.
\<close>

definition is_space :: "char \<Rightarrow> bool" where
  "is_space c = (let k = (of_char c :: nat) in (9 \<le> k \<and> k \<le> 13) \<or> (28 \<le> k \<and> k \<le> 32))"

definition is_digit :: "char \<Rightarrow> bool" where
  "is_digit c = (let k = (of_char c :: nat) in 48 \<le> k \<and> k \<le> 57)"

definition digit_val :: "char \<Rightarrow> nat" where
  "digit_val c = of_char c - 48"

definition strip :: "string \<Rightarrow> string" where
  "strip s = rev (dropWhile is_space (rev (dropWhile is_space s)))"

fun digits_ok :: "string \<Rightarrow> bool" where
  "digits_ok [] = False"
| "digits_ok [c] = is_digit c"
| "digits_ok (c # d # cs) =
     (is_digit c \<and> (if d = CHR ''_'' then digits_ok cs else digits_ok (d # cs)))"

definition digits_val :: "string \<Rightarrow> nat" where
  "digits_val s = foldl (\<lambda>acc c. 10 * acc + digit_val c) 0 s"

definition py_int :: "string \<Rightarrow> py_error + int" where
  "py_int s =
     (let t = strip s;
          neg = (t \<noteq> [] \<and> hd t = CHR ''-'');
          body = (if t \<noteq> [] \<and> (hd t = CHR ''-'' \<or> hd t = CHR ''+'') then tl t else t)
      in if digits_ok body
         then Inr ((if neg then - 1 else 1) * int (digits_val (filter (\<lambda>c. c \<noteq> CHR ''_'') body)))
         else Inl (ValueError ''invalid literal for int() with base 10''))"

subsection \<open>Sets\<close>

text \<open>
  A Python \<^verbatim>\<open>set\<close> is a finite set. \<^verbatim>\<open>set.union(*args)\<close> and
  \<^verbatim>\<open>set.intersection(*args)\<close> are unbound methods: they need at least one argument and
  raise \<^verbatim>\<open>TypeError\<close> on an empty argument list.
\<close>

definition set_union :: "'a fset list \<Rightarrow> py_error + 'a fset" where
  "set_union args =
     (case args of
        [] \<Rightarrow> Inl (TypeError ''unbound method set.union() needs an argument'')
      | s # rest \<Rightarrow> Inr (foldl (|\<union>|) s rest))"

definition set_intersection :: "'a fset list \<Rightarrow> py_error + 'a fset" where
  "set_intersection args =
     (case args of
        [] \<Rightarrow> Inl (TypeError ''unbound method set.intersection() needs an argument'')
      | s # rest \<Rightarrow> Inr (foldl (|\<inter>|) s rest))"

section \<open>What the module imports\<close>

text \<open>
  Colours are floats in matplotlib; here they are real numbers. A colour specification is
  a name (or any other string form) or an RGBA tuple.
\<close>

type_synonym rgba = "real \<times> real \<times> real \<times> real"

datatype color = ColorName string | RGBA rgba

text \<open>A scalar of the coordinate tables: a number, or \<^verbatim>\<open>None\<close>.\<close>

datatype scalar = Num real | NoneVal

text \<open>
  The drawing surface (a matplotlib \<^verbatim>\<open>Axes\<close>) is the list of the calls made on it, oldest
  first: \<open>StyleAxes\<close> is the \<^verbatim>\<open>ax.set(aspect=..., xlim=(-.05, 1.05), ...)\<close> call of
  \<^verbatim>\<open>ensure_axes\<close>, \<open>SetXlim\<close> the \<^verbatim>\<open>ax.set(xlim=...)\<close> call, \<open>AddPatch\<close> is
  \<^verbatim>\<open>ax.add_patch\<close>, \<open>Text\<close> is \<^verbatim>\<open>ax.text(x, y, s, fontsize=...)\<close> and \<open>Legend\<close> is
  \<^verbatim>\<open>ax.legend(labels, loc=..., prop={"size": ...})\<close>.
\<close>

datatype patch =
    Ellipse "scalar \<times> scalar" scalar scalar scalar color rgba
  | Polygon "(scalar \<times> scalar) list" bool color rgba

datatype event =
    StyleAxes
  | SetXlim real real
  | AddPatch patch
  | Text scalar scalar string real
  | Legend "string list" string real

type_synonym canvas = "event list"

datatype outcome = Raised py_error canvas | Returned canvas

text \<open>A petal-label mapping is a \<^verbatim>\<open>dict\<close>: the entries in insertion order, keys distinct.\<close>

type_synonym petal_dict = "(string \<times> string) list"

text \<open>The keyword arguments of \<^verbatim>\<open>draw_venn\<close> and \<^verbatim>\<open>draw_pseudovenn6\<close>, but \<^verbatim>\<open>ax\<close>.\<close>

record draw_args =
  kw_petal_labels :: petal_dict
  kw_dataset_labels :: "string list"
  kw_hint_hidden :: bool
  kw_colors :: "color list"
  kw_fontsize :: real
  kw_legend_loc :: "string option"

text \<open>The arguments of \<^verbatim>\<open>venn\<close> and \<^verbatim>\<open>pseudovenn\<close>, but \<^verbatim>\<open>ax\<close>.\<close>

datatype cmap_arg = CmapName string | ColorList "color list"

record 'a venn_args =
  arg_data :: "(string \<times> 'a fset) list"
  arg_petal_labels :: "petal_dict option"
  arg_fmt :: "string option"
  arg_hint_hidden :: bool
  arg_fontsize :: real
  arg_cmap :: cmap_arg
  arg_alpha :: "real option"
  arg_legend_loc :: "string option"

text \<open>
  What \<^verbatim>\<open>_venn.py\<close> imports is a parameter of the model:
  \<^item> \<open>str_format fmt logic size percentage\<close> is Python's
    \<^verbatim>\<open>fmt.format(logic=logic, size=size, percentage=percentage)\<close>; the percentage is the
    exact quotient, which Python rounds to the nearest float;
  \<^item> \<open>to_rgba\<close> is \<^verbatim>\<open>matplotlib.colors.to_rgba(color, alpha=alpha)\<close>;
  \<^item> \<open>cmap_to_rgba cmap n alpha\<close> is
    \<^verbatim>\<open>ScalarMappable(cmap=cmap).to_rgba(range(n), alpha=alpha).tolist()\<close>;
  \<^item> \<open>validate_draw\<close> and \<open>validate_venn\<close> are the decorator \<^verbatim>\<open>validate_arguments\<close> of
    \<^verbatim>\<open>_utils.py\<close>, on the two signatures it decorates: a check that raises or lets the
    call through with its arguments as they are;
  \<^item> the tables of \<^verbatim>\<open>_constants.py\<close>, indexed by the set count for which they are read
    (2 to 6; 6 alone for the pseudo-Venn table). \<^verbatim>\<open>CENTER_TEXT\<close>, the fixed alignment
    options of every text, is left out of \<open>Text\<close>.
\<close>

record 'a env =
  str_format :: "string \<Rightarrow> string \<Rightarrow> nat \<Rightarrow> real \<Rightarrow> py_error + string"
  to_rgba :: "color \<Rightarrow> real option \<Rightarrow> py_error + rgba"
  cmap_to_rgba :: "string \<Rightarrow> nat \<Rightarrow> real option \<Rightarrow> py_error + rgba list"
  validate_draw :: "draw_args \<Rightarrow> py_error option"
  validate_venn :: "'a venn_args \<Rightarrow> py_error option"
  SHAPE_COORDS :: "nat \<Rightarrow> scalar list list"
  SHAPE_DIMS :: "nat \<Rightarrow> scalar list list"
  SHAPE_ANGLES :: "nat \<Rightarrow> scalar list"
  PETAL_LABEL_COORDS :: "nat \<Rightarrow> string \<Rightarrow> (scalar \<times> scalar) option"
  PSEUDOVENN_PETAL_COORDS :: "nat \<Rightarrow> string \<Rightarrow> (scalar \<times> scalar) option"

section \<open>Colours\<close>

text \<open>
  \<^verbatim>\<open>generate_colors(cmap, n_colors, alpha)\<close>. The argument \<^verbatim>\<open>n_colors\<close> is any Python object:
  an \<^verbatim>\<open>int\<close> or something else.
\<close>

datatype n_colors_arg = PyInt int | NotAnInt

fun map_result :: "('a \<Rightarrow> py_error + 'b) \<Rightarrow> 'a list \<Rightarrow> py_error + 'b list" where
  "map_result f [] = Inr []"
| "map_result f (x # xs) =
     (case f x of
        Inl e \<Rightarrow> Inl e
      | Inr y \<Rightarrow> (case map_result f xs of Inl e \<Rightarrow> Inl e | Inr ys \<Rightarrow> Inr (y # ys)))"

definition generate_colors ::
  "'a env \<Rightarrow> cmap_arg \<Rightarrow> n_colors_arg \<Rightarrow> real option \<Rightarrow> py_error + rgba list" where
  "generate_colors E cmap n_colors alpha =
     (case n_colors of
        NotAnInt \<Rightarrow> Inl (ValueError ''n_colors must be an integer between 2 and 6'')
      | PyInt n \<Rightarrow>
          if n < 2 \<or> n > 6
          then Inl (ValueError ''n_colors must be an integer between 2 and 6'')
          else (case (case cmap of
                        ColorList cs \<Rightarrow> map_result (\<lambda>color. to_rgba E color alpha) cs
                      | CmapName name \<Rightarrow> cmap_to_rgba E name (nat n) alpha) of
                  Inl e \<Rightarrow> Inl e
                | Inr colors \<Rightarrow> Inr (take (nat n) colors)))"

definition less_transparent_color :: "'a env \<Rightarrow> color \<Rightarrow> py_error + rgba" where
  "less_transparent_color E color =
     (case to_rgba E color None of
        Inl e \<Rightarrow> Inl e
      | Inr (r, g, b, a) \<Rightarrow> to_rgba E color (Some ((1 + a) / 2)))"

section \<open>Shapes\<close>

definition draw_ellipse ::
  "'a env \<Rightarrow> scalar \<Rightarrow> scalar \<Rightarrow> scalar \<Rightarrow> scalar \<Rightarrow> scalar \<Rightarrow> color \<Rightarrow> canvas \<Rightarrow> outcome" where
  "draw_ellipse E x y w h a color ax =
     (case less_transparent_color E color of
        Inl e \<Rightarrow> Raised e ax
      | Inr edge \<Rightarrow> Returned (ax @ [AddPatch (Ellipse (x, y) w h a color edge)]))"

definition draw_triangle ::
  "'a env \<Rightarrow> scalar \<Rightarrow> scalar \<Rightarrow> scalar \<Rightarrow> scalar \<Rightarrow> scalar \<Rightarrow> scalar \<Rightarrow> scalar \<Rightarrow> scalar \<Rightarrow>
     color \<Rightarrow> canvas \<Rightarrow> outcome" where
  "draw_triangle E x1 y1 x2 y2 x3 y3 u_dim u_angle color ax =
     (case less_transparent_color E color of
        Inl e \<Rightarrow> Raised e ax
      | Inr edge \<Rightarrow>
          Returned (ax @ [AddPatch (Polygon [(x1, y1), (x2, y2), (x3, y3)] True color edge)]))"

text \<open>
  The local variable \<^verbatim>\<open>draw_shape\<close> of \<^verbatim>\<open>draw_venn\<close> holds one of the two wrappers. The call
  \<^verbatim>\<open>draw_shape(*coords, *dims, angle, color, ax)\<close> raises \<^verbatim>\<open>TypeError\<close> unless the
  unpacked tuples give the wrapper its number of positional arguments.
\<close>

datatype shape_variant = EllipseVariant | TriangleVariant

definition draw_shape ::
  "'a env \<Rightarrow> shape_variant \<Rightarrow> scalar list \<Rightarrow> scalar list \<Rightarrow> scalar \<Rightarrow> color \<Rightarrow> canvas \<Rightarrow> outcome" where
  "draw_shape E variant coords dims angle color ax =
     (let ps = coords @ dims @ [angle] in
      case variant of
        EllipseVariant \<Rightarrow>
          if length ps = 5
          then draw_ellipse E (ps ! 0) (ps ! 1) (ps ! 2) (ps ! 3) (ps ! 4) color ax
          else Raised (TypeError ''draw_ellipse() takes 7 positional arguments'') ax
      | TriangleVariant \<Rightarrow>
          if length ps = 8
          then draw_triangle E (ps ! 0) (ps ! 1) (ps ! 2) (ps ! 3) (ps ! 4) (ps ! 5)
                 (ps ! 6) (ps ! 7) color ax
          else Raised (TypeError ''draw_triangle() takes 10 positional arguments'') ax)"

section \<open>Petal labels\<close>

text \<open>The logic codes in the order of the loop: \<^verbatim>\<open>bin(i)[2:].zfill(n_sets)\<close> for
  \<^verbatim>\<open>i in range(1, 2**n_sets)\<close>.\<close>

definition logic_codes :: "nat \<Rightarrow> string list" where
  "logic_codes n_sets = map (\<lambda>i. zfill (bin_digits i) n_sets) [1..<2 ^ n_sets]"

text \<open>
  The petal of one code: the two list comprehensions (which raise \<^verbatim>\<open>IndexError\<close> when the
  code is shorter than the list of sets) and the set expression.
\<close>

definition included_sets :: "'a fset list \<Rightarrow> string \<Rightarrow> 'a fset list" where
  "included_sets datasets logic =
     map (\<lambda>i. datasets ! i) (filter (\<lambda>i. logic ! i = CHR ''1'') [0..<length datasets])"

definition excluded_sets :: "'a fset list \<Rightarrow> string \<Rightarrow> 'a fset list" where
  "excluded_sets datasets logic =
     map (\<lambda>i. datasets ! i) (filter (\<lambda>i. logic ! i = CHR ''0'') [0..<length datasets])"

definition petal_set :: "'a fset list \<Rightarrow> 'a fset \<Rightarrow> string \<Rightarrow> py_error + 'a fset" where
  "petal_set datasets dataset_union logic =
     (if length logic < length datasets
      then Inl (IndexError ''string index out of range'')
      else (case set_intersection (included_sets datasets logic) of
              Inl e \<Rightarrow> Inl e
            | Inr common \<Rightarrow>
                (case set_union ({||} # excluded_sets datasets logic) of
                   Inl e \<Rightarrow> Inl e
                 | Inr excl \<Rightarrow> Inr ((dataset_union |\<inter>| common) |-| excl))))"

text \<open>The label of one petal; the division is evaluated before the template is applied.\<close>

definition format_label ::
  "'b env \<Rightarrow> string \<Rightarrow> nat \<Rightarrow> string \<Rightarrow> 'a fset \<Rightarrow> py_error + string" where
  "format_label E fmt universe_size logic petal =
     (if universe_size = 0
      then Inl (ZeroDivisionError ''division by zero'')
      else str_format E fmt logic (fcard petal)
             (100 * real (fcard petal) / real universe_size))"

fun petal_labels_loop ::
  "'b env \<Rightarrow> 'a fset list \<Rightarrow> 'a fset \<Rightarrow> string \<Rightarrow> string list \<Rightarrow> petal_dict \<Rightarrow>
     py_error + petal_dict" where
  "petal_labels_loop E datasets dataset_union fmt [] labels = Inr labels"
| "petal_labels_loop E datasets dataset_union fmt (logic # rest) labels =
     (case petal_set datasets dataset_union logic of
        Inl e \<Rightarrow> Inl e
      | Inr petal \<Rightarrow>
          (case format_label E fmt (fcard dataset_union) logic petal of
             Inl e \<Rightarrow> Inl e
           | Inr label \<Rightarrow>
               petal_labels_loop E datasets dataset_union fmt rest
                 (AList.update logic label labels)))"

definition generate_petal_labels ::
  "'b env \<Rightarrow> 'a fset list \<Rightarrow> string \<Rightarrow> py_error + petal_dict" where
  "generate_petal_labels E datasets fmt =
     (case set_union datasets of
        Inl e \<Rightarrow> Inl e
      | Inr dataset_union \<Rightarrow>
          petal_labels_loop E datasets dataset_union fmt (logic_codes (length datasets)) [])"

section \<open>Consistency of codes and labels\<close>

fun check_codes :: "nat \<Rightarrow> string list \<Rightarrow> py_error option" where
  "check_codes n_sets [] = None"
| "check_codes n_sets (logic # rest) =
     (if length logic \<noteq> n_sets
      then Some (ValueError ''Inconsistent petal and dataset labels'')
      else if \<not> set logic \<subseteq> {CHR ''0'', CHR ''1''}
      then Some (KeyError (''Key not understood: '' @ logic))
      else check_codes n_sets rest)"

definition get_n_sets :: "petal_dict \<Rightarrow> string list \<Rightarrow> py_error + nat" where
  "get_n_sets petal_labels dataset_labels =
     (let n_sets = length dataset_labels in
      case check_codes n_sets (map fst petal_labels) of
        Some e \<Rightarrow> Inl e
      | None \<Rightarrow> Inr n_sets)"

section \<open>The decorators\<close>

text \<open>
  \<^verbatim>\<open>ensure_axes\<close> creates the surface when the call has none, styles it and calls the
  function. \<^verbatim>\<open>validate_arguments\<close> comes second: the check of \<^verbatim>\<open>_utils.py\<close>, then the
  function.
\<close>

definition ensure_axes :: "(canvas \<Rightarrow> outcome) \<Rightarrow> canvas option \<Rightarrow> outcome" where
  "ensure_axes function ax =
     function ((case ax of None \<Rightarrow> [] | Some given \<Rightarrow> given) @ [StyleAxes])"

definition validate_arguments ::
  "py_error option \<Rightarrow> (canvas \<Rightarrow> outcome) \<Rightarrow> canvas \<Rightarrow> outcome" where
  "validate_arguments check function ax =
     (case check of Some e \<Rightarrow> Raised e ax | None \<Rightarrow> function ax)"

section \<open>The full Venn diagram\<close>

fun draw_shapes ::
  "'a env \<Rightarrow> shape_variant \<Rightarrow> (scalar list \<times> scalar list \<times> scalar \<times> color) list \<Rightarrow>
     canvas \<Rightarrow> outcome" where
  "draw_shapes E variant [] ax = Returned ax"
| "draw_shapes E variant ((coords, dims, angle, color) # rest) ax =
     (case draw_shape E variant coords dims angle color ax of
        Raised e ax' \<Rightarrow> Raised e ax'
      | Returned ax' \<Rightarrow> draw_shapes E variant rest ax')"

fun draw_petal_texts ::
  "(string \<Rightarrow> (scalar \<times> scalar) option) \<Rightarrow> real \<Rightarrow> petal_dict \<Rightarrow> canvas \<Rightarrow> canvas" where
  "draw_petal_texts table fontsize [] ax = ax"
| "draw_petal_texts table fontsize ((logic, petal_label) # rest) ax =
     (case table logic of
        Some (x, y) \<Rightarrow>
          draw_petal_texts table fontsize rest (ax @ [Text x y petal_label fontsize])
      | None \<Rightarrow> draw_petal_texts table fontsize rest ax)"

definition draw_legend :: "string list \<Rightarrow> string option \<Rightarrow> real \<Rightarrow> canvas \<Rightarrow> canvas" where
  "draw_legend dataset_labels legend_loc fontsize ax =
     (case legend_loc of
        None \<Rightarrow> ax
      | Some loc \<Rightarrow> ax @ [Legend dataset_labels loc fontsize])"

text \<open>The function \<^verbatim>\<open>draw_venn\<close> as it is written, and then as it is decorated.\<close>

definition draw_venn_body :: "'a env \<Rightarrow> draw_args \<Rightarrow> canvas \<Rightarrow> outcome" where
  "draw_venn_body E args ax =
     (case get_n_sets (kw_petal_labels args) (kw_dataset_labels args) of
        Inl e \<Rightarrow> Raised e ax
      | Inr n_sets \<Rightarrow>
          (case (if 2 \<le> n_sets \<and> n_sets < 6 then Inr EllipseVariant
                 else if n_sets = 6 then Inr TriangleVariant
                 else Inl (ValueError ''Number of sets must be between 2 and 6'')) of
             Inl e \<Rightarrow> Raised e ax
           | Inr variant \<Rightarrow>
               (let shape_params =
                      zip (SHAPE_COORDS E n_sets)
                        (zip (SHAPE_DIMS E n_sets) (zip (SHAPE_ANGLES E n_sets) (kw_colors args)))
                in case draw_shapes E variant shape_params ax of
                     Raised e ax' \<Rightarrow> Raised e ax'
                   | Returned ax' \<Rightarrow>
                       Returned
                         (draw_legend (kw_dataset_labels args) (kw_legend_loc args)
                            (kw_fontsize args)
                            (draw_petal_texts (PETAL_LABEL_COORDS E n_sets) (kw_fontsize args)
                               (kw_petal_labels args) ax')))))"

definition draw_venn :: "'a env \<Rightarrow> draw_args \<Rightarrow> canvas option \<Rightarrow> outcome" where
  "draw_venn E args ax =
     ensure_axes (validate_arguments (validate_draw E args) (draw_venn_body E args)) ax"

section \<open>The pseudo-Venn diagram of six sets\<close>

text \<open>
  \<^verbatim>\<open>update_hidden\<close>: the statement \<^verbatim>\<open>hidden[i] += int(petal_labels[logic])\<close> reads
  \<^verbatim>\<open>hidden[i]\<close>, looks the label up, parses it and stores the sum, in this order.
\<close>

fun update_hidden_loop ::
  "int list \<Rightarrow> (nat \<times> char) list \<Rightarrow> string \<Rightarrow> petal_dict \<Rightarrow> py_error + int list" where
  "update_hidden_loop hidden [] logic petal_labels = Inr hidden"
| "update_hidden_loop hidden ((i, c) # rest) logic petal_labels =
     (if c = CHR ''1''
      then if length hidden \<le> i
           then Inl (IndexError ''list index out of range'')
           else (case map_of petal_labels logic of
                   None \<Rightarrow> Inl (KeyError logic)
                 | Some petal_label \<Rightarrow>
                     (case py_int petal_label of
                        Inl e \<Rightarrow> Inl e
                      | Inr v \<Rightarrow>
                          update_hidden_loop (hidden[i := hidden ! i + v]) rest logic
                            petal_labels))
      else update_hidden_loop hidden rest logic petal_labels)"

definition update_hidden :: "int list \<Rightarrow> string \<Rightarrow> petal_dict \<Rightarrow> py_error + int list" where
  "update_hidden hidden logic petal_labels =
     update_hidden_loop hidden (enumerate 0 logic) logic petal_labels"

definition draw_hint_explanation :: "canvas \<Rightarrow> string list \<Rightarrow> real \<Rightarrow> outcome" where
  "draw_hint_explanation ax dataset_labels fontsize =
     (if length dataset_labels < 4
      then Raised (IndexError ''list index out of range'') ax
      else (let hint_text =
                  ''* elements of set in intersections that are not displayed,'' @ [CHR 0x0A] @
                  ''such as shared only between '' @ dataset_labels ! 0 @ '' and '' @
                  dataset_labels ! 3
            in Returned (ax @ [Text (Num 0.5) (Num (- 0.1)) hint_text fontsize])))"

text \<open>The three loops of \<^verbatim>\<open>draw_pseudovenn6\<close>: the circles, the petals, the hints.\<close>

fun draw_circles :: "'a env \<Rightarrow> (nat \<times> color) list \<Rightarrow> canvas \<Rightarrow> outcome" where
  "draw_circles E [] ax = Returned ax"
| "draw_circles E ((step, color) # rest) ax =
     (let angle = (2 - real step) * pi / 3;
          x = 0.5 + 0.2 * cos angle;
          y = 0.5 + 0.2 * sin angle
      in case draw_ellipse E (Num x) (Num y) (Num 0.6) (Num 0.6) (Num 0) color ax of
           Raised e ax' \<Rightarrow> Raised e ax'
         | Returned ax' \<Rightarrow> draw_circles E rest ax')"

text \<open>
  The petal loop returns the hidden counters with the surface. Without \<^verbatim>\<open>hint_hidden\<close>
  the variable \<^verbatim>\<open>hidden\<close> is never bound nor read; it is the empty list here.
\<close>

fun draw_pseudovenn6_petals ::
  "(string \<Rightarrow> (scalar \<times> scalar) option) \<Rightarrow> bool \<Rightarrow> real \<Rightarrow> petal_dict \<Rightarrow>
     petal_dict \<Rightarrow> int list \<Rightarrow> canvas \<Rightarrow> (py_error + int list) \<times> canvas" where
  "draw_pseudovenn6_petals table hint_hidden fontsize petal_labels [] hidden ax =
     (Inr hidden, ax)"
| "draw_pseudovenn6_petals table hint_hidden fontsize petal_labels
     ((logic, petal_label) # rest) hidden ax =
     (case table logic of
        Some (x, y) \<Rightarrow>
          draw_pseudovenn6_petals table hint_hidden fontsize petal_labels rest hidden
            (ax @ [Text x y petal_label fontsize])
      | None \<Rightarrow>
          if hint_hidden
          then (case update_hidden hidden logic petal_labels of
                  Inl e \<Rightarrow> (Inl e, ax)
                | Inr hidden' \<Rightarrow>
                    draw_pseudovenn6_petals table hint_hidden fontsize petal_labels rest
                      hidden' ax)
          else draw_pseudovenn6_petals table hint_hidden fontsize petal_labels rest hidden ax)"

fun draw_hints :: "real \<Rightarrow> (nat \<times> int) list \<Rightarrow> canvas \<Rightarrow> canvas" where
  "draw_hints fontsize [] ax = ax"
| "draw_hints fontsize ((step, hidden_value) # rest) ax =
     (let angle = (2 - real step) * pi / 3;
          x = 0.5 + 0.57 * cos angle;
          y = 0.5 + 0.57 * sin angle;
          hint = str_int hidden_value @ [CHR 0x0A] @ '' n/d*''
      in draw_hints fontsize rest (ax @ [Text (Num x) (Num y) hint fontsize]))"

text \<open>
  \<^verbatim>\<open>draw_pseudovenn6\<close> as it is written: the check of the set count, then the drawing
  steps (all that follows the check), and then as it is decorated.
\<close>

definition draw_pseudovenn6_steps :: "'a env \<Rightarrow> draw_args \<Rightarrow> nat \<Rightarrow> canvas \<Rightarrow> outcome" where
  "draw_pseudovenn6_steps E args n_sets ax =
     (case draw_circles E (zip [0..<6] (kw_colors args)) ax of
        Raised e ax1 \<Rightarrow> Raised e ax1
      | Returned ax1 \<Rightarrow>
          (case draw_pseudovenn6_petals (PSEUDOVENN_PETAL_COORDS E 6)
                  (kw_hint_hidden args) (kw_fontsize args) (kw_petal_labels args)
                  (kw_petal_labels args)
                  (if kw_hint_hidden args then replicate n_sets 0 else []) ax1 of
             (Inl e, ax2) \<Rightarrow> Raised e ax2
           | (Inr hidden, ax2) \<Rightarrow>
               (case (if kw_hint_hidden args
                      then draw_hint_explanation
                             (draw_hints (kw_fontsize args) (zip [0..<6] hidden) ax2 @
                              [SetXlim (- 0.2) 1.05])
                             (kw_dataset_labels args) (kw_fontsize args)
                      else Returned ax2) of
                  Raised e ax3 \<Rightarrow> Raised e ax3
                | Returned ax3 \<Rightarrow>
                    Returned
                      (draw_legend (kw_dataset_labels args) (kw_legend_loc args)
                         (kw_fontsize args) ax3))))"

definition draw_pseudovenn6_body :: "'a env \<Rightarrow> draw_args \<Rightarrow> canvas \<Rightarrow> outcome" where
  "draw_pseudovenn6_body E args ax =
     (case get_n_sets (kw_petal_labels args) (kw_dataset_labels args) of
        Inl e \<Rightarrow> Raised e ax
      | Inr n_sets \<Rightarrow>
          if n_sets \<noteq> 6
          then Raised (NotImplementedError ''Pseudovenn implemented only for 6 sets'') ax
          else draw_pseudovenn6_steps E args n_sets ax)"

definition draw_pseudovenn6 :: "'a env \<Rightarrow> draw_args \<Rightarrow> canvas option \<Rightarrow> outcome" where
  "draw_pseudovenn6 E args ax =
     ensure_axes (validate_arguments (validate_draw E args) (draw_pseudovenn6_body E args)) ax"

section \<open>The dispatcher and the two entry points\<close>

datatype composer = DrawVenn | DrawPseudovenn6

definition call_composer :: "composer \<Rightarrow> 'a env \<Rightarrow> draw_args \<Rightarrow> canvas option \<Rightarrow> outcome" where
  "call_composer func E args ax =
     (case func of
        DrawVenn \<Rightarrow> draw_venn E args ax
      | DrawPseudovenn6 \<Rightarrow> draw_pseudovenn6 E args ax)"

text \<open>
  \<^verbatim>\<open>_venn_dispatch\<close>. The keyword arguments of the call of \<^verbatim>\<open>func\<close> are evaluated in the
  order they are written: the petal labels, then the colours.
\<close>

definition venn_dispatch ::
  "'a env \<Rightarrow> (string \<times> 'a fset) list \<Rightarrow> composer \<Rightarrow> petal_dict option \<Rightarrow> string option \<Rightarrow>
     bool \<Rightarrow> real \<Rightarrow> cmap_arg \<Rightarrow> real option \<Rightarrow> string option \<Rightarrow> canvas \<Rightarrow> outcome" where
  "venn_dispatch E data func petal_labels fmt hint_hidden fontsize cmap alpha legend_loc ax =
     (if hint_hidden \<and> func = DrawPseudovenn6 \<and> fmt \<notin> {None, Some ''{size}''}
      then Raised
             (NotImplementedError
                (''To use fmt='' @ [CHR 0x27] @ the fmt @ [CHR 0x27] @
                 '', set hint_hidden=False'')) ax
      else (case (case petal_labels of
                    Some given \<Rightarrow> Inr given
                  | None \<Rightarrow>
                      generate_petal_labels E (map snd data)
                        (case fmt of
                           None \<Rightarrow> ''{size}''
                         | Some f \<Rightarrow> if f = [] then ''{size}'' else f)) of
              Inl e \<Rightarrow> Raised e ax
            | Inr labels \<Rightarrow>
                (case generate_colors E cmap (PyInt (int (length data))) alpha of
                   Inl e \<Rightarrow> Raised e ax
                 | Inr colors \<Rightarrow>
                     call_composer func E
                       \<lparr>kw_petal_labels = labels, kw_dataset_labels = map fst data,
                        kw_hint_hidden = hint_hidden, kw_colors = map RGBA colors,
                        kw_fontsize = fontsize, kw_legend_loc = legend_loc\<rparr>
                       (Some ax))))"

definition venn :: "'a env \<Rightarrow> 'a venn_args \<Rightarrow> canvas option \<Rightarrow> outcome" where
  "venn E args ax =
     ensure_axes
       (validate_arguments (validate_venn E args)
          (venn_dispatch E (arg_data args) DrawVenn (arg_petal_labels args) (arg_fmt args)
             (arg_hint_hidden args) (arg_fontsize args) (arg_cmap args) (arg_alpha args)
             (arg_legend_loc args)))
       ax"

definition pseudovenn :: "'a env \<Rightarrow> 'a venn_args \<Rightarrow> canvas option \<Rightarrow> outcome" where
  "pseudovenn E args ax =
     ensure_axes
       (validate_arguments (validate_venn E args)
          (venn_dispatch E (arg_data args) DrawPseudovenn6 (arg_petal_labels args)
             (arg_fmt args) (arg_hint_hidden args) (arg_fontsize args) (arg_cmap args)
             (arg_alpha args) (arg_legend_loc args)))
       ax"

section \<open>Notions used in the statements\<close>

definition bits :: "string \<Rightarrow> bool" where
  "bits s = (set s \<subseteq> {CHR ''0'', CHR ''1''})"

definition bval :: "string \<Rightarrow> nat" where
  "bval s = foldl (\<lambda>acc c. 2 * acc + (if c = CHR ''1'' then 1 else 0)) 0 s"

definition code_of :: "nat \<Rightarrow> nat \<Rightarrow> string" where
  "code_of n i = zfill (bin_digits i) n"

definition is_code :: "nat \<Rightarrow> string \<Rightarrow> bool" where
  "is_code n logic =
     (length logic = n \<and> set logic \<subseteq> {CHR ''0'', CHR ''1''} \<and> logic \<noteq> replicate n CHR ''0'')"

definition universe :: "'a fset list \<Rightarrow> 'a fset" where
  "universe datasets = fold (|\<union>|) datasets {||}"

definition spec_petal :: "'a fset list \<Rightarrow> string \<Rightarrow> 'a fset" where
  "spec_petal datasets logic =
     ffilter
       (\<lambda>x. (\<forall>i \<in> {0..<length datasets}. logic ! i = CHR ''1'' \<longrightarrow> x |\<in>| datasets ! i) \<and>
            (\<forall>i \<in> {0..<length datasets}. logic ! i \<noteq> CHR ''1'' \<longrightarrow> x |\<notin>| datasets ! i))
       (universe datasets)"

definition membership_code :: "'a fset list \<Rightarrow> 'a \<Rightarrow> string" where
  "membership_code datasets x = map (\<lambda>s. if x |\<in>| s then CHR ''1'' else CHR ''0'') datasets"

text \<open>
  The label the specification gives a code: the template applied to the code, the size of
  its petal and the percentage of the universe.
\<close>

definition spec_label :: "'b env \<Rightarrow> 'a fset list \<Rightarrow> string \<Rightarrow> string \<Rightarrow> py_error + string" where
  "spec_label E datasets fmt logic =
     str_format E fmt logic (fcard (spec_petal datasets logic))
       (100 * real (fcard (spec_petal datasets logic)) / real (fcard (universe datasets)))"

text \<open>What a call leaves on the drawing surface, and the shapes among the calls made.\<close>

definition surface :: "outcome \<Rightarrow> canvas" where
  "surface r = (case r of Raised e ax \<Rightarrow> ax | Returned ax \<Rightarrow> ax)"

fun patches :: "canvas \<Rightarrow> patch list" where
  "patches [] = []"
| "patches (AddPatch p # rest) = p # patches rest"
| "patches (ev # rest) = patches rest"

definition is_ellipse :: "patch \<Rightarrow> bool" where
  "is_ellipse p = (case p of Ellipse _ _ _ _ _ _ \<Rightarrow> True | Polygon _ _ _ _ \<Rightarrow> False)"

definition is_polygon :: "patch \<Rightarrow> bool" where
  "is_polygon p = (case p of Ellipse _ _ _ _ _ _ \<Rightarrow> False | Polygon _ _ _ _ \<Rightarrow> True)"

text \<open>The surface as \<^verbatim>\<open>ensure_axes\<close> hands it to the decorated function.\<close>

definition styled :: "canvas option \<Rightarrow> canvas" where
  "styled ax = (case ax of None \<Rightarrow> [] | Some given \<Rightarrow> given) @ [StyleAxes]"

text \<open>The class of shape that a drawing variant adds.\<close>

definition of_variant :: "shape_variant \<Rightarrow> patch \<Rightarrow> bool" where
  "of_variant variant p =
     (case variant of EllipseVariant \<Rightarrow> is_ellipse p | TriangleVariant \<Rightarrow> is_polygon p)"

text \<open>The fourth element of an RGBA tuple.\<close>

definition alpha_of :: "rgba \<Rightarrow> real" where
  "alpha_of c = (case c of (r, g, b, a) \<Rightarrow> a)"

section \<open>An environment for the examples\<close>

text \<open>
  One instance of the imports, small enough to compute with. Its formatter prints the
  templates \<^verbatim>\<open>{size}\<close>, \<^verbatim>\<open>{logic}\<close> and \<^verbatim>\<open>{logic}: {size}\<close> as Python does and knows no
  other template; its colour conversion knows RGBA tuples and the name \<^verbatim>\<open>red\<close>; its one
  colormap is a grey ramp; the argument check accepts every call; the tables hold one
  position for every shape and label, and three petals in the pseudo-Venn table.
\<close>

definition example_format :: "string \<Rightarrow> string \<Rightarrow> nat \<Rightarrow> real \<Rightarrow> py_error + string" where
  "example_format fmt logic sz percentage =
     (if fmt = ''{size}'' then Inr (str_nat sz)
      else if fmt = ''{logic}'' then Inr logic
      else if fmt = ''{logic}: {size}'' then Inr (logic @ '': '' @ str_nat sz)
      else Inl (ValueError ''template unknown to the example''))"

definition example_to_rgba :: "color \<Rightarrow> real option \<Rightarrow> py_error + rgba" where
  "example_to_rgba color alpha =
     (case color of
        RGBA (r, g, b, a) \<Rightarrow> Inr (r, g, b, (case alpha of None \<Rightarrow> a | Some v \<Rightarrow> v))
      | ColorName name \<Rightarrow>
          if name = ''red'' then Inr (1, 0, 0, (case alpha of None \<Rightarrow> 1 | Some v \<Rightarrow> v))
          else Inl (ValueError ''Invalid RGBA argument''))"

definition example_cmap :: "string \<Rightarrow> nat \<Rightarrow> real option \<Rightarrow> py_error + rgba list" where
  "example_cmap name n alpha =
     (if name = ''gray''
      then Inr (map (\<lambda>i. (real i / real (n - 1), real i / real (n - 1), real i / real (n - 1),
                          (case alpha of None \<Rightarrow> 1 | Some v \<Rightarrow> v))) [0..<n])
      else Inl (ValueError ''not a valid colormap''))"

definition example_env :: "'a env" where
  "example_env =
     \<lparr>str_format = example_format,
      to_rgba = example_to_rgba,
      cmap_to_rgba = example_cmap,
      validate_draw = (\<lambda>args. None),
      validate_venn = (\<lambda>args. None),
      SHAPE_COORDS = (\<lambda>n. replicate n (replicate (if n = 6 then 6 else 2) (Num 0.5))),
      SHAPE_DIMS = (\<lambda>n. replicate n (if n = 6 then [NoneVal] else [Num 0.5, Num 0.5])),
      SHAPE_ANGLES = (\<lambda>n. replicate n (if n = 6 then NoneVal else Num 0)),
      PETAL_LABEL_COORDS = (\<lambda>n logic. if length logic = n then Some (Num 0.5, Num 0.5) else None),
      PSEUDOVENN_PETAL_COORDS =
        (\<lambda>n. map_of [(''100000'', (Num 0.5, Num 0.9)), (''110000'', (Num 0.6, Num 0.8)),
                      (''111111'', (Num 0.5, Num 0.5))])\<rparr>"

text \<open>Calls for the examples: two sets, seven sets, and six sets with the hints.\<close>

definition venn2_args :: draw_args where
  "venn2_args =
     \<lparr>kw_petal_labels = [(''01'', ''1''), (''10'', ''1''), (''11'', ''2'')],
      kw_dataset_labels = [''A'', ''B''],
      kw_hint_hidden = False,
      kw_colors = [RGBA (1, 0, 0, 0.4), RGBA (0, 0, 1, 0.4)],
      kw_fontsize = 13,
      kw_legend_loc = Some ''upper right''\<rparr>"

definition venn7_args :: draw_args where
  "venn7_args =
     \<lparr>kw_petal_labels = [(''1000000'', ''1'')],
      kw_dataset_labels = [''A'', ''B'', ''C'', ''D'', ''E'', ''F'', ''G''],
      kw_hint_hidden = False,
      kw_colors = [RGBA (1, 0, 0, 0.4), RGBA (0, 0, 1, 0.4)],
      kw_fontsize = 13,
      kw_legend_loc = Some ''upper right''\<rparr>"

definition venn6_args :: draw_args where
  "venn6_args =
     \<lparr>kw_petal_labels = [(''100000'', ''1''), (''100100'', ''2'')],
      kw_dataset_labels = [''A'', ''B'', ''C'', ''D'', ''E'', ''F''],
      kw_hint_hidden = False,
      kw_colors = [RGBA (1, 0, 0, 0.4), RGBA (0, 0, 1, 0.4)],
      kw_fontsize = 13,
      kw_legend_loc = None\<rparr>"

definition six_sets :: "(string \<times> int fset) list" where
  "six_sets =
     [(''A'', {|1, 2, 3|}), (''B'', {|2, 3, 4|}), (''C'', {|3, 4, 5|}),
      (''D'', {|1, 7|}), (''E'', {|8|}), (''F'', {|3, 9|})]"

definition pseudovenn_args :: "string option \<Rightarrow> int venn_args" where
  "pseudovenn_args template =
     \<lparr>arg_data = six_sets, arg_petal_labels = None, arg_fmt = template,
      arg_hint_hidden = True, arg_fontsize = 13, arg_cmap = CmapName ''gray'',
      arg_alpha = Some 0.4, arg_legend_loc = Some ''upper right''\<rparr>"

section \<open>Logic codes and petals\<close>

lemma bval_snoc: "bval (s @ [c]) = 2 * bval s + (if c = CHR ''1'' then 1 else 0)"
  by (simp add: bval_def)

lemma bval_foldl:
  "foldl (\<lambda>acc c. 2 * acc + (if c = CHR ''1'' then 1 else 0)) a s = a * 2 ^ length s + bval s"
proof (induction s arbitrary: a rule: rev_induct)
  case Nil
  then show ?case by (simp add: bval_def)
next
  case (snoc c s)
  then show ?case by (simp add: bval_snoc algebra_simps)
qed

lemma bval_Cons: "bval (c # s) = (if c = CHR ''1'' then 1 else 0) * 2 ^ length s + bval s"
  using bval_foldl [of "if c = CHR ''1'' then 1 else 0" s] by (simp add: bval_def)

lemma bval_Nil: "bval [] = 0"
  by (simp add: bval_def)

lemma bval_bound: "bval s < 2 ^ length s"
proof (induction s rule: rev_induct)
  case Nil
  then show ?case by (simp add: bval_Nil)
next
  case (snoc c s)
  then show ?case by (simp add: bval_snoc)
qed

lemma bval_inj:
  "bits s \<Longrightarrow> bits t \<Longrightarrow> length s = length t \<Longrightarrow> bval s = bval t \<Longrightarrow> s = t"
proof (induction s arbitrary: t)
  case Nil
  then show ?case by simp
next
  case (Cons c s)
  then obtain d t' where t: "t = d # t'" by (cases t) auto
  have len: "length s = length t'" using Cons.prems t by simp
  have bs: "bval s < 2 ^ length s" "bval t' < 2 ^ length s"
    using bval_bound [of s] bval_bound [of t'] len by simp_all
  have cd: "c \<in> {CHR ''0'', CHR ''1''}" "d \<in> {CHR ''0'', CHR ''1''}"
    using Cons.prems t by (auto simp: bits_def)
  have eq: "(if c = CHR ''1'' then 1 else 0) * 2 ^ length s + bval s
          = (if d = CHR ''1'' then 1 else 0) * 2 ^ length s + bval t'"
    using Cons.prems(4) t len by (simp add: bval_Cons)
  have "c = d \<and> bval s = bval t'"
    using eq bs cd by (auto split: if_splits)
  moreover have "bits s" "bits t'" using Cons.prems t by (auto simp: bits_def)
  ultimately show ?case using Cons.IH [of t'] len t by simp
qed

lemma bits_bin_digits: "bits (bin_digits i)"
proof (induction i rule: bin_digits.induct)
  case (1 i)
  then show ?case
    by (subst bin_digits.simps) (auto simp: bits_def)
qed

lemma bval_bin_digits: "bval (bin_digits i) = i"
proof (induction i rule: bin_digits.induct)
  case (1 i)
  show ?case
  proof (cases "i < 2")
    case True
    then show ?thesis
      by (subst bin_digits.simps) (auto simp: bval_def)
  next
    case False
    then have "bval (bin_digits (i div 2)) = i div 2" using 1 by simp
    moreover have "bin_digits i = bin_digits (i div 2) @ [if i mod 2 = 0 then CHR ''0'' else CHR ''1'']"
      using False by (subst bin_digits.simps) simp
    ultimately have "bval (bin_digits i) = 2 * (i div 2) + (if i mod 2 = 0 then 0 else 1)"
      by (simp add: bval_snoc)
    then show ?thesis by presburger
  qed
qed

lemma length_bin_digits: "i < 2 ^ n \<Longrightarrow> 0 < n \<Longrightarrow> length (bin_digits i) \<le> n"
proof (induction i arbitrary: n rule: bin_digits.induct)
  case (1 i)
  show ?case
  proof (cases "i < 2")
    case True
    then show ?thesis using "1.prems"
      by (subst bin_digits.simps) simp
  next
    case False
    then obtain m where n: "n = Suc m" using "1.prems" by (cases n) auto
    have m: "0 < m" using False "1.prems" n by (cases m) auto
    have "i div 2 < 2 ^ m" using "1.prems" n by auto
    then have "length (bin_digits (i div 2)) \<le> m" using "1.IH" False m by simp
    then show ?thesis using False n
      by (subst bin_digits.simps) simp
  qed
qed

lemma bin_digits_nonempty: "bin_digits i \<noteq> []"
  by (subst bin_digits.simps) simp

lemma zfill_bits: "bits s \<Longrightarrow> zfill s n = replicate (n - length s) CHR ''0'' @ s"
  by (cases s) (auto simp: zfill_def bits_def)

lemma bval_replicate: "bval (replicate k CHR ''0'' @ s) = bval s"
  by (induction k) (simp_all add: bval_Cons)

lemma code_of_props:
  assumes "i < 2 ^ n" "0 < n"
  shows "length (code_of n i) = n" "bits (code_of n i)" "bval (code_of n i) = i"
  using assms length_bin_digits [OF assms] bits_bin_digits [of i]
  by (auto simp: code_of_def zfill_bits bval_replicate bval_bin_digits bits_def)

lemma bval_zero_iff: "bits s \<Longrightarrow> bval s = 0 \<longleftrightarrow> CHR ''1'' \<notin> set s"
  by (induction s) (auto simp: bval_Cons bval_Nil bits_def)

lemma set_logic_codes:
  "set (logic_codes n) = {s. length s = n \<and> bits s \<and> CHR ''1'' \<in> set s}"
proof (cases "n = 0")
  case True
  then show ?thesis by (auto simp: logic_codes_def)
next
  case False
  then have n: "0 < n" by simp
  show ?thesis
  proof (intro set_eqI iffI)
    fix s assume "s \<in> set (logic_codes n)"
    then obtain i where i: "1 \<le> i" "i < 2 ^ n" "s = code_of n i"
      by (auto simp: logic_codes_def code_of_def)
    then show "s \<in> {s. length s = n \<and> bits s \<and> CHR ''1'' \<in> set s}"
      using code_of_props [OF i(2) n] bval_zero_iff [of s] by auto
  next
    fix s assume "s \<in> {s. length s = n \<and> bits s \<and> CHR ''1'' \<in> set s}"
    then have s: "length s = n" "bits s" "CHR ''1'' \<in> set s" by auto
    let ?i = "bval s"
    have i: "?i < 2 ^ n" "1 \<le> ?i"
      using bval_bound [of s] s bval_zero_iff [of s] by (auto simp: Suc_le_eq)
    have "code_of n ?i = s"
      using code_of_props [OF i(1) n] s by (intro bval_inj) auto
    then show "s \<in> set (logic_codes n)"
      using i by (auto simp: logic_codes_def code_of_def image_iff intro!: bexI [of _ ?i])
  qed
qed

lemma distinct_logic_codes: "distinct (logic_codes n)"
proof (cases "n = 0")
  case True
  then show ?thesis by (simp add: logic_codes_def)
next
  case False
  then have n: "0 < n" by simp
  have inj: "inj_on (code_of n) {1..<2 ^ n}"
  proof (rule inj_onI)
    fix i j :: nat
    assume ij: "i \<in> {1..<2 ^ n}" "j \<in> {1..<2 ^ n}" and eq: "code_of n i = code_of n j"
    have "bval (code_of n i) = i" "bval (code_of n j) = j"
      using ij n by (simp_all add: code_of_props(3))
    then show "i = j" using eq by metis
  qed
  have "logic_codes n = map (code_of n) [1..<2 ^ n]"
    unfolding logic_codes_def code_of_def ..
  moreover have "distinct (map (code_of n) [1..<2 ^ n])"
    unfolding distinct_map using inj by (simp only: distinct_upt set_upt simp_thms)
  ultimately show ?thesis by simp
qed

lemma length_logic_codes: "length (logic_codes n) = 2 ^ n - 1"
  by (simp add: logic_codes_def)

lemma is_code_iff: "is_code n logic \<longleftrightarrow> length logic = n \<and> bits logic \<and> CHR ''1'' \<in> set logic"
proof -
  have "logic = replicate (length logic) CHR ''0'' \<longleftrightarrow> CHR ''1'' \<notin> set logic" if "bits logic"
  proof
    assume "logic = replicate (length logic) CHR ''0''"
    then have "set logic \<subseteq> {CHR ''0''}" by (metis set_replicate_conv_if empty_subsetI subset_refl)
    then show "CHR ''1'' \<notin> set logic" by auto
  next
    assume "CHR ''1'' \<notin> set logic"
    then have "\<forall>c \<in> set logic. c = CHR ''0''" using that by (auto simp: bits_def)
    then show "logic = replicate (length logic) CHR ''0''"
      by (simp add: replicate_length_same [symmetric])
  qed
  then show ?thesis by (auto simp: is_code_def bits_def)
qed

lemma set_logic_codes_is_code: "set (logic_codes n) = {logic. is_code n logic}"
  by (simp add: set_logic_codes is_code_iff)

lemma fold_funion_iff: "x |\<in>| fold (|\<union>|) ss acc \<longleftrightarrow> x |\<in>| acc \<or> (\<exists>s \<in> set ss. x |\<in>| s)"
  by (induction ss arbitrary: acc) auto

lemma foldl_funion_iff: "x |\<in>| foldl (|\<union>|) acc ss \<longleftrightarrow> x |\<in>| acc \<or> (\<exists>s \<in> set ss. x |\<in>| s)"
  by (induction ss arbitrary: acc) auto

lemma foldl_finter_iff: "x |\<in>| foldl (|\<inter>|) acc ss \<longleftrightarrow> x |\<in>| acc \<and> (\<forall>s \<in> set ss. x |\<in>| s)"
  by (induction ss arbitrary: acc) auto

lemma universe_iff: "x |\<in>| universe datasets \<longleftrightarrow> (\<exists>s \<in> set datasets. x |\<in>| s)"
  by (simp add: universe_def fold_funion_iff)

lemma set_union_universe: "datasets \<noteq> [] \<Longrightarrow> set_union datasets = Inr (universe datasets)"
  by (cases datasets) (auto simp: set_union_def universe_iff foldl_funion_iff)

lemma set_union_Nil: "set_union [] = Inl (TypeError ''unbound method set.union() needs an argument'')"
  by (simp add: set_union_def)

lemma set_intersection_iff:
  "args \<noteq> [] \<Longrightarrow>
   \<exists>common. set_intersection args = Inr common \<and> (\<forall>x. x |\<in>| common \<longleftrightarrow> (\<forall>s \<in> set args. x |\<in>| s))"
  by (cases args) (auto simp: set_intersection_def foldl_finter_iff)

lemma set_union_empty_iff:
  "\<exists>excl. set_union ({||} # args) = Inr excl \<and> (\<forall>x. x |\<in>| excl \<longleftrightarrow> (\<exists>s \<in> set args. x |\<in>| s))"
  by (auto simp: set_union_def foldl_funion_iff)

lemma spec_petal_iff:
  assumes "length logic = length datasets" "bits logic"
  shows "x |\<in>| spec_petal datasets logic \<longleftrightarrow>
         x |\<in>| universe datasets \<and> membership_code datasets x = logic"
proof -
  have bit: "logic ! i \<noteq> CHR ''1'' \<longleftrightarrow> logic ! i = CHR ''0''" if "i < length datasets" for i
  proof -
    have "logic ! i \<in> set logic" using that assms(1) by simp
    then show ?thesis using assms(2) by (auto simp: bits_def)
  qed
  have mc: "membership_code datasets x = logic \<longleftrightarrow>
        (\<forall>i < length datasets. (if x |\<in>| datasets ! i then CHR ''1'' else CHR ''0'') = logic ! i)"
    using assms(1) by (auto simp: membership_code_def list_eq_iff_nth_eq)
  have eq: "(\<forall>i < length datasets. (if x |\<in>| datasets ! i then CHR ''1'' else CHR ''0'') = logic ! i) \<longleftrightarrow>
        (\<forall>i \<in> {0..<length datasets}. logic ! i = CHR ''1'' \<longrightarrow> x |\<in>| datasets ! i) \<and>
        (\<forall>i \<in> {0..<length datasets}. logic ! i \<noteq> CHR ''1'' \<longrightarrow> x |\<notin>| datasets ! i)"
    (is "?L \<longleftrightarrow> ?R")
  proof
    assume L: ?L
    show ?R
    proof (intro conjI ballI impI)
      fix i assume i: "i \<in> {0..<length datasets}" and b: "logic ! i = CHR ''1''"
      have "(if x |\<in>| datasets ! i then CHR ''1'' else CHR ''0'') = logic ! i" using L i by simp
      then show "x |\<in>| datasets ! i" using b by (simp split: if_splits)
    next
      fix i assume i: "i \<in> {0..<length datasets}" and b: "logic ! i \<noteq> CHR ''1''"
      have "(if x |\<in>| datasets ! i then CHR ''1'' else CHR ''0'') = logic ! i" using L i by simp
      then show "x |\<notin>| datasets ! i" using b by (simp split: if_splits)
    qed
  next
    assume R: ?R
    show ?L
    proof (intro allI impI)
      fix i assume i: "i < length datasets"
      show "(if x |\<in>| datasets ! i then CHR ''1'' else CHR ''0'') = logic ! i"
      proof (cases "logic ! i = CHR ''1''")
        case True
        then show ?thesis using R i by simp
      next
        case False
        then have "x |\<notin>| datasets ! i" using R i by simp
        then show ?thesis using False bit [OF i] by simp
      qed
    qed
  qed
  have "x |\<in>| spec_petal datasets logic \<longleftrightarrow>
        x |\<in>| universe datasets \<and>
        (\<forall>i \<in> {0..<length datasets}. logic ! i = CHR ''1'' \<longrightarrow> x |\<in>| datasets ! i) \<and>
        (\<forall>i \<in> {0..<length datasets}. logic ! i \<noteq> CHR ''1'' \<longrightarrow> x |\<notin>| datasets ! i)"
    unfolding spec_petal_def by (simp add: conj_commute)
  then show ?thesis
    unfolding mc eq .
qed

lemma membership_code_is_code:
  assumes "x |\<in>| universe datasets"
  shows "is_code (length datasets) (membership_code datasets x)"
proof -
  obtain s where "s \<in> set datasets" "x |\<in>| s" using assms by (auto simp: universe_iff)
  then have "CHR ''1'' \<in> set (membership_code datasets x)"
    by (force simp: membership_code_def)
  then show ?thesis
    by (auto simp: is_code_iff membership_code_def bits_def)
qed

lemma fcard_spec_petal:
  assumes "is_code (length datasets) logic"
  shows "fcard (spec_petal datasets logic) =
         card {x \<in> fset (universe datasets). membership_code datasets x = logic}"
proof -
  have "fset (spec_petal datasets logic) =
        {x \<in> fset (universe datasets). membership_code datasets x = logic}"
    using spec_petal_iff [of logic datasets] assms by (auto simp: is_code_iff)
  then show ?thesis by (simp add: fcard.rep_eq)
qed

lemma sum_petal_sizes:
  "(\<Sum>logic\<leftarrow>logic_codes (length datasets). fcard (spec_petal datasets logic)) =
   fcard (universe datasets)"
proof -
  let ?n = "length datasets" and ?U = "fset (universe datasets)"
  let ?T = "set (logic_codes ?n)"
  have "(\<Sum>logic\<leftarrow>logic_codes ?n. fcard (spec_petal datasets logic)) =
        (\<Sum>logic\<in>?T. fcard (spec_petal datasets logic))"
    using distinct_logic_codes by (simp add: sum_list_distinct_conv_sum_set)
  also have "\<dots> = (\<Sum>logic\<in>?T. card {x \<in> ?U. membership_code datasets x = logic})"
    by (intro sum.cong refl fcard_spec_petal) (simp add: set_logic_codes_is_code)
  also have "\<dots> = (\<Sum>logic\<in>?T. \<Sum>x\<in>{x \<in> ?U. membership_code datasets x = logic}. 1)"
    by simp
  also have "\<dots> = (\<Sum>x\<in>?U. 1)"
  proof (intro sum.group)
    show "membership_code datasets ` ?U \<subseteq> ?T"
      by (auto simp: set_logic_codes_is_code membership_code_is_code)
  qed simp_all
  finally show ?thesis by (simp add: fcard.rep_eq)
qed

lemma sum_petal_sizes_of_set:
  assumes "i < length datasets"
  shows "(\<Sum>logic\<leftarrow>filter (\<lambda>logic. logic ! i = CHR ''1'') (logic_codes (length datasets)).
            fcard (spec_petal datasets logic)) = fcard (datasets ! i)"
proof -
  let ?n = "length datasets" and ?S = "fset (datasets ! i)"
  let ?T = "{logic \<in> set (logic_codes ?n). logic ! i = CHR ''1''}"
  have sub: "x |\<in>| universe datasets" if "x \<in> ?S" for x
    using that assms by (auto simp: universe_iff intro: nth_mem)
  have "(\<Sum>logic\<leftarrow>filter (\<lambda>logic. logic ! i = CHR ''1'') (logic_codes ?n).
           fcard (spec_petal datasets logic)) =
        (\<Sum>logic\<in>?T. fcard (spec_petal datasets logic))"
    using distinct_logic_codes [of ?n] by (simp add: sum_list_distinct_conv_sum_set)
  also have "\<dots> = (\<Sum>logic\<in>?T. card {x \<in> ?S. membership_code datasets x = logic})"
  proof (intro sum.cong refl)
    fix logic assume "logic \<in> ?T"
    then have c: "is_code ?n logic" and bit: "logic ! i = CHR ''1''"
      by (simp_all add: set_logic_codes_is_code)
    have "{x \<in> fset (universe datasets). membership_code datasets x = logic} =
          {x \<in> ?S. membership_code datasets x = logic}"
      using bit assms sub by (auto simp: membership_code_def split: if_splits)
    then show "fcard (spec_petal datasets logic) = card {x \<in> ?S. membership_code datasets x = logic}"
      using fcard_spec_petal [OF c] by simp
  qed
  also have "\<dots> = (\<Sum>logic\<in>?T. \<Sum>x\<in>{x \<in> ?S. membership_code datasets x = logic}. 1)"
    by simp
  also have "\<dots> = (\<Sum>x\<in>?S. 1)"
  proof (intro sum.group)
    show "membership_code datasets ` ?S \<subseteq> ?T"
    proof
      fix c assume "c \<in> membership_code datasets ` ?S"
      then obtain x where x: "x |\<in>| datasets ! i" "c = membership_code datasets x" by auto
      have "x |\<in>| universe datasets" using x(1) by (rule sub)
      then have "is_code ?n c" unfolding x(2) by (rule membership_code_is_code)
      moreover have "c ! i = CHR ''1''" using x assms by (simp add: membership_code_def)
      ultimately show "c \<in> ?T" by (simp add: set_logic_codes_is_code)
    qed
  qed simp_all
  finally show ?thesis by (simp add: fcard.rep_eq)
qed

lemma set_included_sets:
  "set (included_sets datasets logic) =
   {datasets ! i |i. i < length datasets \<and> logic ! i = CHR ''1''}"
  unfolding included_sets_def by (simp add: image_def set_eq_iff) blast

lemma set_excluded_sets:
  "set (excluded_sets datasets logic) =
   {datasets ! i |i. i < length datasets \<and> logic ! i = CHR ''0''}"
  unfolding excluded_sets_def by (simp add: image_def set_eq_iff) blast

lemma petal_set_code:
  assumes "is_code (length datasets) logic"
  shows "petal_set datasets (universe datasets) logic = Inr (spec_petal datasets logic)"
proof -
  let ?n = "length datasets"
  have len: "length logic = ?n" and b: "bits logic" and one: "CHR ''1'' \<in> set logic"
    using assms by (simp_all add: is_code_iff)
  obtain k where k: "k < ?n" "logic ! k = CHR ''1''"
    using one len by (metis in_set_conv_nth)
  have "datasets ! k \<in> set (included_sets datasets logic)"
    unfolding set_included_sets using k by blast
  then have "included_sets datasets logic \<noteq> []" by (metis empty_iff empty_set)
  then obtain s rest where sr: "included_sets datasets logic = s # rest"
    by (cases "included_sets datasets logic") simp_all
  define common where "common = foldl (|\<inter>|) s rest"
  define excl where "excl = foldl (|\<union>|) {||} (excluded_sets datasets logic)"
  have common1: "set_intersection (included_sets datasets logic) = Inr common"
    unfolding sr common_def set_intersection_def by simp
  have common2: "x |\<in>| common \<longleftrightarrow> (\<forall>t \<in> set (included_sets datasets logic). x |\<in>| t)" for x
    unfolding sr common_def foldl_finter_iff by simp
  have excl1: "set_union ({||} # excluded_sets datasets logic) = Inr excl"
    unfolding excl_def set_union_def by simp
  have excl2: "x |\<in>| excl \<longleftrightarrow> (\<exists>t \<in> set (excluded_sets datasets logic). x |\<in>| t)" for x
    unfolding excl_def foldl_funion_iff by simp
  have bit: "logic ! i \<noteq> CHR ''1'' \<longleftrightarrow> logic ! i = CHR ''0''" if "i < ?n" for i
  proof -
    have "logic ! i \<in> set logic" using that len by simp
    then show ?thesis using b by (auto simp: bits_def)
  qed
  have c_iff: "x |\<in>| common \<longleftrightarrow>
      (\<forall>i \<in> {0..<?n}. logic ! i = CHR ''1'' \<longrightarrow> x |\<in>| datasets ! i)" for x
  proof -
    have "x |\<in>| common \<longleftrightarrow> (\<forall>i. i < ?n \<and> logic ! i = CHR ''1'' \<longrightarrow> x |\<in>| datasets ! i)"
      unfolding common2 set_included_sets by blast
    then show ?thesis unfolding Ball_def atLeastLessThan_iff by blast
  qed
  have e_iff: "x |\<notin>| excl \<longleftrightarrow>
      (\<forall>i \<in> {0..<?n}. logic ! i \<noteq> CHR ''1'' \<longrightarrow> x |\<notin>| datasets ! i)" for x
  proof -
    have "x |\<notin>| excl \<longleftrightarrow> (\<forall>i. i < ?n \<and> logic ! i = CHR ''0'' \<longrightarrow> x |\<notin>| datasets ! i)"
      unfolding excl2 set_excluded_sets by blast
    also have "\<dots> \<longleftrightarrow> (\<forall>i \<in> {0..<?n}. logic ! i \<noteq> CHR ''1'' \<longrightarrow> x |\<notin>| datasets ! i)"
      unfolding Ball_def atLeastLessThan_iff using bit by blast
    finally show ?thesis .
  qed
  have "(universe datasets |\<inter>| common) |-| excl = spec_petal datasets logic"
  proof (rule fset_eqI)
    fix x
    have "x |\<in>| (universe datasets |\<inter>| common) |-| excl \<longleftrightarrow>
          x |\<in>| universe datasets \<and> x |\<in>| common \<and> x |\<notin>| excl" by auto
    also have "\<dots> \<longleftrightarrow> x |\<in>| spec_petal datasets logic"
      unfolding c_iff e_iff spec_petal_def by (simp add: conj_commute)
    finally show "x |\<in>| (universe datasets |\<inter>| common) |-| excl \<longleftrightarrow>
          x |\<in>| spec_petal datasets logic" .
  qed
  then show ?thesis
    using common1 excl1 len by (simp add: petal_set_def)
qed

section \<open>The loop of generate_petal_labels\<close>

lemma map_result_Inr_iff: "map_result f xs = Inr ys \<longleftrightarrow> map f xs = map Inr ys"
proof (induction xs arbitrary: ys)
  case Nil
  then show ?case by auto
next
  case (Cons x xs)
  show ?case
  proof (cases "f x")
    case (Inl e)
    then show ?thesis by (cases ys) simp_all
  next
    case (Inr y)
    note fx = this
    show ?thesis
    proof (cases "map_result f xs")
      case (Inl e)
      then have "\<And>zs. map f xs \<noteq> map Inr zs" using Cons.IH by (metis sum.distinct(1))
      then show ?thesis using fx Inl by (cases ys) simp_all
    next
      case (Inr zs)
      then have "map f xs = map Inr zs" using Cons.IH by simp
      then show ?thesis using fx Inr by (cases ys) (auto simp: inj_map_eq_map)
    qed
  qed
qed

lemma map_result_Inl: "map_result f xs = Inl e \<Longrightarrow> \<exists>x \<in> set xs. f x = Inl e"
  by (induction xs) (auto split: sum.splits)

lemma map_result_length: "map_result f xs = Inr ys \<Longrightarrow> length ys = length xs"
  unfolding map_result_Inr_iff by (metis length_map)

lemma map_result_nth:
  "map_result f xs = Inr ys \<Longrightarrow> i < length xs \<Longrightarrow> f (xs ! i) = Inr (ys ! i)"
  unfolding map_result_Inr_iff by (metis length_map nth_map)

lemma map_result_total:
  "(\<And>x. x \<in> set xs \<Longrightarrow> f x = Inr (g x)) \<Longrightarrow> map_result f xs = Inr (map g xs)"
  by (induction xs) simp_all

lemma update_fresh: "k \<notin> fst ` set al \<Longrightarrow> AList.update k v al = al @ [(k, v)]"
  by (induction al) auto

lemma fold_update_fresh:
  "distinct (map fst xs) \<Longrightarrow> fst ` set xs \<inter> fst ` set acc = {} \<Longrightarrow>
   fold (\<lambda>(c, l). AList.update c l) xs acc = acc @ xs"
proof (induction xs arbitrary: acc)
  case Nil
  then show ?case by simp
next
  case (Cons p xs)
  obtain c l where p: "p = (c, l)" by (cases p)
  have fresh: "c \<notin> fst ` set acc" using Cons.prems(2) p by auto
  have d: "distinct (map fst xs)" and c: "c \<notin> fst ` set xs" using Cons.prems(1) p by auto
  have "fst ` set xs \<inter> fst ` set (acc @ [(c, l)]) = {}"
    using Cons.prems(2) c by auto
  then have "fold (\<lambda>(c, l). AList.update c l) xs (acc @ [(c, l)]) = (acc @ [(c, l)]) @ xs"
    using Cons.IH [OF d] by blast
  then show ?case using p fresh by (simp add: update_fresh)
qed

lemma format_label_code:
  assumes "universe datasets \<noteq> {||}"
  shows "format_label E fmt (fcard (universe datasets)) logic (spec_petal datasets logic) =
         spec_label E datasets fmt logic"
  using assms by (simp add: format_label_def spec_label_def)

lemma petal_labels_loop_char:
  assumes "universe datasets \<noteq> {||}" "\<forall>c \<in> set cs. is_code (length datasets) c"
  shows "petal_labels_loop E datasets (universe datasets) fmt cs acc =
         (case map_result (spec_label E datasets fmt) cs of
            Inl e \<Rightarrow> Inl e
          | Inr labs \<Rightarrow> Inr (fold (\<lambda>(c, l). AList.update c l) (zip cs labs) acc))"
  using assms(2)
proof (induction cs arbitrary: acc)
  case Nil
  then show ?case by simp
next
  case (Cons c cs)
  have c: "petal_set datasets (universe datasets) c = Inr (spec_petal datasets c)"
    using Cons.prems by (simp add: petal_set_code)
  have IH: "petal_labels_loop E datasets (universe datasets) fmt cs acc' =
         (case map_result (spec_label E datasets fmt) cs of
            Inl e \<Rightarrow> Inl e
          | Inr labs \<Rightarrow> Inr (fold (\<lambda>(c, l). AList.update c l) (zip cs labs) acc'))" for acc'
    using Cons.IH Cons.prems by simp
  show ?case
    by (simp add: c format_label_code [OF assms(1)] IH split: sum.splits)
qed

lemma generate_petal_labels_char:
  assumes "datasets \<noteq> []" "universe datasets \<noteq> {||}"
  shows "generate_petal_labels E datasets fmt =
         (case map_result (spec_label E datasets fmt) (logic_codes (length datasets)) of
            Inl e \<Rightarrow> Inl e
          | Inr labs \<Rightarrow> Inr (zip (logic_codes (length datasets)) labs))"
proof -
  let ?cs = "logic_codes (length datasets)"
  have codes: "\<forall>c \<in> set ?cs. is_code (length datasets) c"
    by (simp add: set_logic_codes_is_code)
  have z: "fold (\<lambda>(c, l). AList.update c l) (zip ?cs labs) [] = zip ?cs labs" for labs :: "string list"
  proof -
    have "distinct (map fst (zip ?cs labs))"
      using distinct_logic_codes [of "length datasets"] by (simp add: map_fst_zip_take)
    then show ?thesis using fold_update_fresh [of "zip ?cs labs" "[]"] by simp
  qed
  show ?thesis
    unfolding generate_petal_labels_def
    by (simp add: set_union_universe [OF assms(1)] petal_labels_loop_char [OF assms(2) codes] z
          split: sum.splits)
qed


section \<open>What the drawing functions add to the surface\<close>

lemma patches_append: "patches (xs @ ys) = patches xs @ patches ys"
  by (induction xs rule: patches.induct) simp_all

lemma surface_simps:
  "surface (Raised e ax) = ax" "surface (Returned ax) = ax"
  by (simp_all add: surface_def)

lemma draw_ellipse_cases:
  "(\<exists>e. draw_ellipse E x y w h a color ax = Raised e ax) \<or>
   (\<exists>p. is_ellipse p \<and> draw_ellipse E x y w h a color ax = Returned (ax @ [AddPatch p]))"
  by (cases "less_transparent_color E color") (simp_all add: draw_ellipse_def is_ellipse_def)

lemma draw_triangle_cases:
  "(\<exists>e. draw_triangle E x1 y1 x2 y2 x3 y3 d a color ax = Raised e ax) \<or>
   (\<exists>p. is_polygon p \<and>
        draw_triangle E x1 y1 x2 y2 x3 y3 d a color ax = Returned (ax @ [AddPatch p]))"
  by (cases "less_transparent_color E color") (simp_all add: draw_triangle_def is_polygon_def)

lemma draw_shape_cases:
  "(\<exists>e. draw_shape E variant coords dims angle color ax = Raised e ax) \<or>
   (\<exists>p. of_variant variant p \<and>
        draw_shape E variant coords dims angle color ax = Returned (ax @ [AddPatch p]))"
proof (cases variant)
  case EllipseVariant
  show ?thesis
  proof (cases "length (coords @ dims @ [angle]) = 5")
    case True
    then show ?thesis
      using draw_ellipse_cases [of E "(coords @ dims @ [angle]) ! 0" "(coords @ dims @ [angle]) ! 1"
          "(coords @ dims @ [angle]) ! 2" "(coords @ dims @ [angle]) ! 3"
          "(coords @ dims @ [angle]) ! 4" color ax]
      unfolding draw_shape_def Let_def EllipseVariant of_variant_def by simp
  next
    case False
    then show ?thesis unfolding draw_shape_def Let_def EllipseVariant by simp
  qed
next
  case TriangleVariant
  show ?thesis
  proof (cases "length (coords @ dims @ [angle]) = 8")
    case True
    then show ?thesis
      using draw_triangle_cases [of E "(coords @ dims @ [angle]) ! 0" "(coords @ dims @ [angle]) ! 1"
          "(coords @ dims @ [angle]) ! 2" "(coords @ dims @ [angle]) ! 3"
          "(coords @ dims @ [angle]) ! 4" "(coords @ dims @ [angle]) ! 5"
          "(coords @ dims @ [angle]) ! 6" "(coords @ dims @ [angle]) ! 7" color ax]
      unfolding draw_shape_def Let_def TriangleVariant of_variant_def by simp
  next
    case False
    then show ?thesis unfolding draw_shape_def Let_def TriangleVariant by simp
  qed
qed

lemma draw_shapes_patches:
  "\<exists>new. surface (draw_shapes E variant ps ax) = ax @ new \<and>
         list_all (of_variant variant) (patches new) \<and>
         length new = length (patches new) \<and>
         (\<forall>c. draw_shapes E variant ps ax = Returned c \<longrightarrow> length (patches new) = length ps)"
proof (induction ps arbitrary: ax)
  case Nil
  show ?case by (simp add: surface_simps)
next
  case (Cons q ps)
  obtain coords dims angle color where q: "q = (coords, dims, angle, color)" by (cases q)
  consider e where "draw_shape E variant coords dims angle color ax = Raised e ax"
    | p where "of_variant variant p"
        "draw_shape E variant coords dims angle color ax = Returned (ax @ [AddPatch p])"
    using draw_shape_cases [of E variant coords dims angle color ax] by blast
  then show ?case
  proof cases
    case 1
    then show ?thesis unfolding q by (simp add: surface_simps)
  next
    case 2
    obtain new where new: "surface (draw_shapes E variant ps (ax @ [AddPatch p])) = (ax @ [AddPatch p]) @ new"
      "list_all (of_variant variant) (patches new)" "length new = length (patches new)"
      "\<forall>c. draw_shapes E variant ps (ax @ [AddPatch p]) = Returned c \<longrightarrow> length (patches new) = length ps"
      using Cons.IH [of "ax @ [AddPatch p]"] by blast
    have "surface (draw_shapes E variant (q # ps) ax) = ax @ (AddPatch p # new)"
      unfolding q using 2(2) new(1) by simp
    moreover have "list_all (of_variant variant) (patches (AddPatch p # new))"
      using 2(1) new(2) by simp
    moreover have "length (AddPatch p # new) = length (patches (AddPatch p # new))"
      using new(3) by simp
    moreover have "\<forall>c. draw_shapes E variant (q # ps) ax = Returned c \<longrightarrow>
        length (patches (AddPatch p # new)) = length (q # ps)"
      unfolding q using 2(2) new(4) by simp
    ultimately show ?thesis by blast
  qed
qed

lemma draw_petal_texts_patches:
  "\<exists>new. draw_petal_texts table fontsize labels ax = ax @ new \<and> patches new = []"
proof (induction labels arbitrary: ax)
  case Nil
  show ?case by simp
next
  case (Cons q labels)
  obtain logic lab where q: "q = (logic, lab)" by (cases q)
  show ?case
  proof (cases "table logic")
    case None
    then show ?thesis unfolding q using Cons.IH [of ax] by simp
  next
    case (Some xy)
    obtain x y where xy: "xy = (x, y)" by (cases xy)
    obtain new where "draw_petal_texts table fontsize labels (ax @ [Text x y lab fontsize]) =
        (ax @ [Text x y lab fontsize]) @ new" "patches new = []"
      using Cons.IH [of "ax @ [Text x y lab fontsize]"] by blast
    then have "draw_petal_texts table fontsize (q # labels) ax = ax @ (Text x y lab fontsize # new) \<and>
        patches (Text x y lab fontsize # new) = []"
      unfolding q using Some xy by simp
    then show ?thesis by blast
  qed
qed

lemma draw_legend_patches:
  "\<exists>new. draw_legend dataset_labels legend_loc fontsize ax = ax @ new \<and> patches new = []"
proof (cases legend_loc)
  case None
  then show ?thesis by (simp add: draw_legend_def)
next
  case (Some loc)
  have "draw_legend dataset_labels legend_loc fontsize ax = ax @ [Legend dataset_labels loc fontsize] \<and>
      patches [Legend dataset_labels loc fontsize] = []"
    using Some by (simp add: draw_legend_def)
  then show ?thesis by blast
qed


section \<open>Claims on the petal labels\<close>

text \<open>
  C1. For at least two sets with a non-empty union and every non-zero logic code of their
  number of bits, the petal computed for the code is the part of the universe that lies in
  every set whose bit is 1 and in no other set, and the label stored under the code is the
  template applied to the code, the size of that petal and 100 times the size over the
  size of the universe. The call can only fail with an error of the template.
\<close>

theorem generate_petal_labels_petal:
  assumes "2 \<le> length datasets" and "universe datasets \<noteq> {||}"
    and "is_code (length datasets) logic"
  shows "set_union datasets = Inr (universe datasets) \<and>
         petal_set datasets (universe datasets) logic = Inr (spec_petal datasets logic) \<and>
         (case generate_petal_labels E datasets fmt of
            Inr labels \<Rightarrow>
              \<exists>label. map_of labels logic = Some label \<and>
                str_format E fmt logic (fcard (spec_petal datasets logic))
                  (100 * real (fcard (spec_petal datasets logic)) /
                   real (fcard (universe datasets))) = Inr label
          | Inl e \<Rightarrow>
              \<exists>c \<in> set (logic_codes (length datasets)).
                str_format E fmt c (fcard (spec_petal datasets c))
                  (100 * real (fcard (spec_petal datasets c)) /
                   real (fcard (universe datasets))) = Inl e)"
proof -
  let ?cs = "logic_codes (length datasets)"
  have ne: "datasets \<noteq> []" using assms(1) by auto
  have u: "set_union datasets = Inr (universe datasets)" by (rule set_union_universe [OF ne])
  have p: "petal_set datasets (universe datasets) logic = Inr (spec_petal datasets logic)"
    by (rule petal_set_code [OF assms(3)])
  have g: "generate_petal_labels E datasets fmt =
         (case map_result (spec_label E datasets fmt) ?cs of
            Inl e \<Rightarrow> Inl e
          | Inr labs \<Rightarrow> Inr (zip ?cs labs))"
    by (rule generate_petal_labels_char [OF ne assms(2)])
  have third: "(case generate_petal_labels E datasets fmt of
            Inr labels \<Rightarrow>
              \<exists>label. map_of labels logic = Some label \<and> spec_label E datasets fmt logic = Inr label
          | Inl e \<Rightarrow> \<exists>c \<in> set ?cs. spec_label E datasets fmt c = Inl e)"
  proof (cases "map_result (spec_label E datasets fmt) ?cs")
    case (Inl e)
    then show ?thesis using g map_result_Inl [OF Inl] by simp
  next
    case (Inr labs)
    have len: "length labs = length ?cs" by (rule map_result_length [OF Inr])
    have "logic \<in> set ?cs" using assms(3) by (simp add: set_logic_codes_is_code)
    then obtain k where k: "k < length ?cs" "?cs ! k = logic" by (metis in_set_conv_nth)
    have "map_of (zip ?cs labs) (?cs ! k) = Some (labs ! k)"
      using distinct_logic_codes [of "length datasets"] k(1) len
      by (intro map_of_zip_nth) simp_all
    moreover have "spec_label E datasets fmt (?cs ! k) = Inr (labs ! k)"
      by (rule map_result_nth [OF Inr k(1)])
    ultimately show ?thesis using g Inr k(2) by auto
  qed
  show ?thesis
    using u p third unfolding spec_label_def by blast
qed

theorem generate_petal_labels_petal_witness:
  "2 \<le> length [{|1, 2, 3|}, {|2, 3, 4 :: int|}] \<and>
   universe [{|1, 2, 3|}, {|2, 3, 4 :: int|}] \<noteq> {||} \<and>
   is_code (length [{|1, 2, 3|}, {|2, 3, 4 :: int|}]) ''11'' \<and>
   petal_set [{|1, 2, 3|}, {|2, 3, 4 :: int|}] (universe [{|1, 2, 3|}, {|2, 3, 4|}]) ''11'' =
     Inr {|2, 3|} \<and>
   generate_petal_labels (example_env :: int env) [{|1, 2, 3|}, {|2, 3, 4 :: int|}] ''{size}'' =
     Inr [(''01'', ''1''), (''10'', ''1''), (''11'', ''2'')]"
proof -
  let ?ds = "[{|1, 2, 3|}, {|2, 3, 4 :: int|}]"
  have h1: "2 \<le> length ?ds" by simp
  have h2: "universe ?ds \<noteq> {||}" by code_simp
  have h3: "is_code (length ?ds) ''11''" by code_simp
  have e: "spec_petal ?ds ''11'' = {|2, 3|}" by code_simp
  have g: "generate_petal_labels (example_env :: int env) ?ds ''{size}'' =
     Inr [(''01'', ''1''), (''10'', ''1''), (''11'', ''2'')]" by code_simp
  have p: "petal_set ?ds (universe ?ds) ''11'' = Inr {|2, 3|}"
    using generate_petal_labels_petal [OF h1 h2 h3, of example_env "''{size}''"]
    unfolding e by blast
  show ?thesis
    using h1 h2 h3 p g by blast
qed

text \<open>
  C2. For at least two sets with a non-empty union, the petals of all the codes of the
  loop are computed without error, there are 2^N - 1 of them, and their sizes add up to
  the size of the union of the sets.
\<close>

theorem petal_sizes_partition:
  assumes "2 \<le> length datasets" and "universe datasets \<noteq> {||}"
  shows "set_union datasets = Inr (universe datasets) \<and>
         (\<exists>petals.
            map_result (petal_set datasets (universe datasets)) (logic_codes (length datasets)) =
              Inr petals \<and>
            length petals = 2 ^ length datasets - 1 \<and>
            sum_list (map fcard petals) = fcard (universe datasets))"
proof -
  let ?cs = "logic_codes (length datasets)"
  have ne: "datasets \<noteq> []" using assms(1) by auto
  have u: "set_union datasets = Inr (universe datasets)" by (rule set_union_universe [OF ne])
  have "map_result (petal_set datasets (universe datasets)) ?cs =
        Inr (map (spec_petal datasets) ?cs)"
    by (rule map_result_total) (simp add: petal_set_code set_logic_codes_is_code)
  moreover have "length (map (spec_petal datasets) ?cs) = 2 ^ length datasets - 1"
    by (simp add: length_logic_codes)
  moreover have "sum_list (map fcard (map (spec_petal datasets) ?cs)) = fcard (universe datasets)"
    using sum_petal_sizes [of datasets] by (simp add: comp_def)
  ultimately show ?thesis using u by blast
qed

theorem petal_sizes_partition_witness:
  "2 \<le> length [{|1, 2, 3|}, {|2, 3, 4 :: int|}] \<and>
   universe [{|1, 2, 3|}, {|2, 3, 4 :: int|}] \<noteq> {||} \<and>
   map_result (petal_set [{|1, 2, 3|}, {|2, 3, 4 :: int|}] (universe [{|1, 2, 3|}, {|2, 3, 4|}]))
     (logic_codes 2) = Inr [{|4|}, {|1|}, {|2, 3|}] \<and>
   fcard (universe [{|1, 2, 3|}, {|2, 3, 4 :: int|}]) = 4 \<and>
   (\<exists>petals.
      map_result (petal_set [{|1, 2, 3|}, {|2, 3, 4 :: int|}] (universe [{|1, 2, 3|}, {|2, 3, 4|}]))
        (logic_codes (length [{|1, 2, 3|}, {|2, 3, 4 :: int|}])) = Inr petals \<and>
      sum_list (map fcard petals) = fcard (universe [{|1, 2, 3|}, {|2, 3, 4 :: int|}]))"
proof -
  let ?ds = "[{|1, 2, 3|}, {|2, 3, 4 :: int|}]"
  have h1: "2 \<le> length ?ds" by simp
  have h2: "universe ?ds \<noteq> {||}" by code_simp
  have m: "map_result (petal_set ?ds (universe ?ds)) (logic_codes 2) = Inr [{|4|}, {|1|}, {|2, 3|}]"
    by code_simp
  have c: "fcard (universe ?ds) = 4" by code_simp
  show ?thesis
    using petal_sizes_partition [OF h1 h2] h1 h2 m c by blast
qed

lemma empty_universe_fails:
  assumes "datasets \<noteq> []" and "\<forall>s \<in> set datasets. s = {||}"
  shows "generate_petal_labels E datasets fmt = Inl (ZeroDivisionError ''division by zero'')"
proof -
  let ?n = "length datasets"
  have n: "1 \<le> ?n" using assms(1) by (cases datasets) simp_all
  have U: "universe datasets = {||}"
    using assms(2) by (auto simp: universe_iff)
  have "(2::nat) ^ 1 \<le> 2 ^ ?n" using n by (rule power_increasing) simp
  then have "(1::nat) < 2 ^ ?n" by simp
  then have up: "[1..<2 ^ ?n] = 1 # [Suc 1..<2 ^ ?n]" by (rule upt_conv_Cons)
  have cs: "logic_codes ?n = code_of ?n 1 # map (code_of ?n) [Suc 1..<2 ^ ?n]"
    unfolding logic_codes_def up code_of_def by simp
  have "code_of ?n 1 \<in> set (logic_codes ?n)" unfolding cs by simp
  then have "is_code ?n (code_of ?n 1)" by (simp add: set_logic_codes_is_code)
  then have p: "petal_set datasets (universe datasets) (code_of ?n 1) =
      Inr (spec_petal datasets (code_of ?n 1))" by (rule petal_set_code)
  show ?thesis
    unfolding generate_petal_labels_def set_union_universe [OF assms(1)] cs
    using p by (simp add: U format_label_def)
qed

text \<open>
  C3. For one or more sets that are all empty, the call fails with the division by zero,
  whatever the template and whatever the formatter does.
\<close>

theorem generate_petal_labels_empty_universe:
  assumes "datasets \<noteq> []" and "\<forall>s \<in> set datasets. s = {||}"
  shows "generate_petal_labels E datasets fmt = Inl (ZeroDivisionError ''division by zero'')"
  using assms by (rule empty_universe_fails)

theorem generate_petal_labels_empty_universe_witness:
  "[{||}, {||} :: int fset] \<noteq> [] \<and>
   generate_petal_labels (example_env :: int env) [{||}, {||} :: int fset] ''{logic}'' =
     Inl (ZeroDivisionError ''division by zero'')"
proof -
  have h1: "[{||}, {||} :: int fset] \<noteq> []" by simp
  have h2: "\<forall>s \<in> set [{||}, {||} :: int fset]. s = {||}" by simp
  show ?thesis
    using generate_petal_labels_empty_universe [OF h1 h2, of example_env "''{logic}''"] h1
    by blast
qed

text \<open>
  C10. The set count is not checked. For a single non-empty set the result is the
  one-entry mapping from the code 1 to the label of the size of the set (the percentage
  being 100), unless the template fails; for one or more sets, whenever the call
  returns, the keys are the 2^N - 1 non-zero codes of N bits, each once, in the order of
  the loop; and the call returns when the union is not empty and the template is
  accepted.
\<close>

theorem generate_petal_labels_any_count:
  "(S \<noteq> {||} \<longrightarrow>
      generate_petal_labels E [S] fmt =
        (case str_format E fmt ''1'' (fcard S) 100 of
           Inl e \<Rightarrow> Inl e
         | Inr label \<Rightarrow> Inr [(''1'', label)])) \<and>
   (datasets \<noteq> [] \<longrightarrow>
      (\<forall>labels. generate_petal_labels E datasets fmt = Inr labels \<longrightarrow>
         map fst labels = logic_codes (length datasets) \<and>
         distinct (map fst labels) \<and>
         set (map fst labels) = {logic. is_code (length datasets) logic} \<and>
         length labels = 2 ^ length datasets - 1)) \<and>
   (datasets \<noteq> [] \<and> universe datasets \<noteq> {||} \<and>
    (\<forall>logic n p. \<exists>label. str_format E fmt logic n p = Inr label) \<longrightarrow>
      (\<exists>labels. generate_petal_labels E datasets fmt = Inr labels))"
proof (intro conjI impI allI)
  assume S: "S \<noteq> {||}"
  have U: "universe [S] = S" by (simp add: universe_def)
  have cs: "logic_codes (Suc 0) = [''1'']" by code_simp
  have sp: "spec_petal [S] ''1'' = S"
    by (rule fset_eqI) (simp add: spec_petal_def U)
  have "fcard S \<noteq> 0" using S by simp
  then have pct: "100 * real (fcard S) / real (fcard S) = 100" by simp
  show "generate_petal_labels E [S] fmt =
        (case str_format E fmt ''1'' (fcard S) 100 of
           Inl e \<Rightarrow> Inl e
         | Inr label \<Rightarrow> Inr [(''1'', label)])"
  proof -
    have cs': "logic_codes (length [S]) = [''1'']" using cs by simp
    have "generate_petal_labels E [S] fmt =
          (case map_result (spec_label E [S] fmt) (logic_codes (length [S])) of
             Inl e \<Rightarrow> Inl e
           | Inr labs \<Rightarrow> Inr (zip (logic_codes (length [S])) labs))"
      by (rule generate_petal_labels_char) (simp_all add: U S)
    then have "generate_petal_labels E [S] fmt =
          (case map_result (spec_label E [S] fmt) [''1''] of
             Inl e \<Rightarrow> Inl e
           | Inr labs \<Rightarrow> Inr (zip [''1''] labs))"
      unfolding cs' .
    moreover have "spec_label E [S] fmt ''1'' = str_format E fmt ''1'' (fcard S) 100"
      by (simp add: spec_label_def sp U pct)
    ultimately show ?thesis by (simp split: sum.splits)
  qed
next
  fix labels
  assume ne: "datasets \<noteq> []" and g: "generate_petal_labels E datasets fmt = Inr labels"
  let ?cs = "logic_codes (length datasets)"
  have U: "universe datasets \<noteq> {||}"
  proof
    assume "universe datasets = {||}"
    then have "\<And>x. \<not> (\<exists>s \<in> set datasets. x |\<in>| s)"
      using universe_iff [of _ datasets] by simp
    then have "\<forall>s \<in> set datasets. s = {||}" by blast
    then have "generate_petal_labels E datasets fmt = Inl (ZeroDivisionError ''division by zero'')"
      using ne by (intro empty_universe_fails)
    then show False using g by simp
  qed
  obtain labs where labs: "map_result (spec_label E datasets fmt) ?cs = Inr labs"
    and l: "labels = zip ?cs labs"
    using g unfolding generate_petal_labels_char [OF ne U] by (auto split: sum.splits)
  have len: "length labs = length ?cs" by (rule map_result_length [OF labs])
  show keys: "map fst labels = ?cs" using l len by simp
  show "distinct (map fst labels)" unfolding keys by (rule distinct_logic_codes)
  show "set (map fst labels) = {logic. is_code (length datasets) logic}"
    unfolding keys by (rule set_logic_codes_is_code)
  show "length labels = 2 ^ length datasets - 1"
    using l len by (simp add: length_logic_codes)
next
  assume a: "datasets \<noteq> [] \<and> universe datasets \<noteq> {||} \<and>
    (\<forall>logic n p. \<exists>label. str_format E fmt logic n p = Inr label)"
  let ?cs = "logic_codes (length datasets)"
  have "\<forall>c. \<exists>label. spec_label E datasets fmt c = Inr label"
    using a unfolding spec_label_def by blast
  then obtain lab where lab: "\<And>c. spec_label E datasets fmt c = Inr (lab c)" by metis
  have "map_result (spec_label E datasets fmt) ?cs = Inr (map lab ?cs)"
    by (rule map_result_total) (rule lab)
  then show "\<exists>labels. generate_petal_labels E datasets fmt = Inr labels"
    using a by (simp add: generate_petal_labels_char)
qed

theorem generate_petal_labels_any_count_witness:
  "{|1, 2, 3 :: int|} \<noteq> {||} \<and>
   generate_petal_labels (example_env :: int env) [{|1, 2, 3 :: int|}] ''{size}'' =
     Inr [(''1'', ''3'')] \<and>
   [{|1, 2, 3|}, {|2, 3, 4 :: int|}] \<noteq> [] \<and>
   universe [{|1, 2, 3|}, {|2, 3, 4 :: int|}] \<noteq> {||} \<and>
   (\<exists>labels.
      generate_petal_labels (example_env :: int env) [{|1, 2, 3|}, {|2, 3, 4 :: int|}] ''{size}'' =
        Inr labels \<and>
      map fst labels = [''01'', ''10'', ''11''] \<and> length labels = 3)"
proof -
  let ?S = "{|1, 2, 3 :: int|}" and ?ds = "[{|1, 2, 3|}, {|2, 3, 4 :: int|}]"
  let ?E = "example_env :: int env"
  note t = generate_petal_labels_any_count [of ?S ?E "''{size}''" ?ds]
  note t1 = t [THEN conjunct1, rule_format]
  note t2 = t [THEN conjunct2, THEN conjunct1, rule_format]
  note t3 = t [THEN conjunct2, THEN conjunct2, rule_format]
  have h1: "?S \<noteq> {||}" by simp
  have f: "str_format ?E ''{size}'' ''1'' (fcard ?S) 100 = Inr ''3''" by code_simp
  have a: "generate_petal_labels ?E [?S] ''{size}'' = Inr [(''1'', ''3'')]"
    unfolding t1 [OF h1] f by simp
  have h2: "?ds \<noteq> []" by simp
  have h3: "universe ?ds \<noteq> {||}" by code_simp
  have h4: "\<forall>logic n p. \<exists>label. str_format ?E ''{size}'' logic n p = Inr label"
    by (simp add: example_env_def example_format_def)
  obtain labels where g: "generate_petal_labels ?E ?ds ''{size}'' = Inr labels"
    using t3 h2 h3 h4 by blast
  have cs: "logic_codes (length ?ds) = [''01'', ''10'', ''11'']" by code_simp
  have k: "map fst labels = logic_codes (length ?ds)" "length labels = 2 ^ length ?ds - 1"
    using t2 [OF h2 g] by blast+
  have k': "map fst labels = [''01'', ''10'', ''11'']" "length labels = 3"
    using k unfolding cs by simp_all
  show ?thesis
    by (intro conjI exI [of _ labels]) (fact h1 a h2 h3 g k')+
qed


section \<open>Claims on the checks and on the drawing\<close>

lemma check_codes_None_iff:
  "check_codes n cs = None \<longleftrightarrow>
   (\<forall>logic \<in> set cs. length logic = n \<and> set logic \<subseteq> {CHR ''0'', CHR ''1''})"
  by (induction cs) simp_all

text \<open>
  C7. \<^verbatim>\<open>get_n_sets\<close> raises exactly when some code of the mapping has a length other than
  the number of dataset labels or has a character other than 0 and 1; when it does not
  raise it returns the number of dataset labels.
\<close>

theorem get_n_sets_checks:
  "((\<exists>e. get_n_sets petal_labels dataset_labels = Inl e) \<longleftrightarrow>
    (\<exists>logic \<in> set (map fst petal_labels).
       length logic \<noteq> length dataset_labels \<or> \<not> set logic \<subseteq> {CHR ''0'', CHR ''1''})) \<and>
   ((\<forall>e. get_n_sets petal_labels dataset_labels \<noteq> Inl e) \<longrightarrow>
    get_n_sets petal_labels dataset_labels = Inr (length dataset_labels))"
proof (cases "check_codes (length dataset_labels) (map fst petal_labels)")
  case None
  then have g: "get_n_sets petal_labels dataset_labels = Inr (length dataset_labels)"
    by (simp add: get_n_sets_def)
  have "\<not> (\<exists>logic \<in> set (map fst petal_labels).
       length logic \<noteq> length dataset_labels \<or> \<not> set logic \<subseteq> {CHR ''0'', CHR ''1''})"
    using None unfolding check_codes_None_iff by blast
  then show ?thesis unfolding g by simp
next
  case (Some e)
  then have g: "get_n_sets petal_labels dataset_labels = Inl e"
    by (simp add: get_n_sets_def)
  have "check_codes (length dataset_labels) (map fst petal_labels) \<noteq> None" using Some by simp
  then have "\<exists>logic \<in> set (map fst petal_labels).
       length logic \<noteq> length dataset_labels \<or> \<not> set logic \<subseteq> {CHR ''0'', CHR ''1''}"
    unfolding check_codes_None_iff by blast
  then show ?thesis unfolding g by blast
qed

theorem get_n_sets_checks_witness:
  "get_n_sets [(''01'', ''5''), (''1a'', ''7'')] [''A'', ''B''] =
     Inl (KeyError ''Key not understood: 1a'') \<and>
   get_n_sets [(''01'', ''5''), (''1'', ''7'')] [''A'', ''B''] =
     Inl (ValueError ''Inconsistent petal and dataset labels'') \<and>
   get_n_sets [(''01'', ''5''), (''11'', ''7'')] [''A'', ''B''] = Inr (length [''A'', ''B''])"
proof -
  have a: "get_n_sets [(''01'', ''5''), (''1a'', ''7'')] [''A'', ''B''] =
     Inl (KeyError ''Key not understood: 1a'')" by code_simp
  have b: "get_n_sets [(''01'', ''5''), (''1'', ''7'')] [''A'', ''B''] =
     Inl (ValueError ''Inconsistent petal and dataset labels'')" by code_simp
  have ok: "\<not> (\<exists>logic \<in> set (map fst [(''01'', ''5''), (''11'', ''7'')]).
       length logic \<noteq> length [''A'', ''B''] \<or> \<not> set logic \<subseteq> {CHR ''0'', CHR ''1''})"
    by simp
  have c: "get_n_sets [(''01'', ''5''), (''11'', ''7'')] [''A'', ''B''] = Inr (length [''A'', ''B''])"
    using get_n_sets_checks [of "[(''01'', ''5''), (''11'', ''7'')]" "[''A'', ''B'']"] ok
    by blast
  show ?thesis using a b c by blast
qed


lemma draw_venn_decorated:
  "draw_venn E args ax =
     (case validate_draw E args of
        Some e \<Rightarrow> Raised e (styled ax)
      | None \<Rightarrow> draw_venn_body E args (styled ax))"
  unfolding draw_venn_def ensure_axes_def validate_arguments_def styled_def ..

lemma draw_venn_body_variant:
  assumes "get_n_sets (kw_petal_labels args) (kw_dataset_labels args) = Inr N"
    and "(2 \<le> N \<and> N < 6 \<and> variant = EllipseVariant) \<or> (N = 6 \<and> variant = TriangleVariant)"
  shows "\<exists>new. surface (draw_venn_body E args ax) = ax @ new \<and>
           list_all (of_variant variant) (patches new) \<and>
           (\<forall>c. draw_venn_body E args ax = Returned c \<longrightarrow>
              length (patches new) =
              length (zip (SHAPE_COORDS E N)
                        (zip (SHAPE_DIMS E N) (zip (SHAPE_ANGLES E N) (kw_colors args)))))"
proof -
  let ?ps = "zip (SHAPE_COORDS E N) (zip (SHAPE_DIMS E N) (zip (SHAPE_ANGLES E N) (kw_colors args)))"
  have sel: "(if 2 \<le> N \<and> N < 6 then Inr EllipseVariant
              else if N = 6 then Inr TriangleVariant
              else Inl (ValueError ''Number of sets must be between 2 and 6'')) = Inr variant"
    using assms(2) by auto
  have body: "draw_venn_body E args ax =
      (case draw_shapes E variant ?ps ax of
         Raised e ax' \<Rightarrow> Raised e ax'
       | Returned ax' \<Rightarrow>
           Returned (draw_legend (kw_dataset_labels args) (kw_legend_loc args) (kw_fontsize args)
              (draw_petal_texts (PETAL_LABEL_COORDS E N) (kw_fontsize args)
                 (kw_petal_labels args) ax')))"
    unfolding draw_venn_body_def assms(1) sum.case sel Let_def ..
  obtain new where new: "surface (draw_shapes E variant ?ps ax) = ax @ new"
    "list_all (of_variant variant) (patches new)"
    "\<forall>c. draw_shapes E variant ?ps ax = Returned c \<longrightarrow> length (patches new) = length ?ps"
    using draw_shapes_patches [of E variant ?ps ax] by blast
  show ?thesis
  proof (cases "draw_shapes E variant ?ps ax")
    case (Raised e ax')
    then have "draw_venn_body E args ax = Raised e ax'" unfolding body by simp
    moreover have "ax' = ax @ new" using new(1) Raised by (simp add: surface_simps)
    ultimately show ?thesis using new(2) by (auto simp: surface_simps)
  next
    case (Returned ax')
    have ax': "ax' = ax @ new" using new(1) Returned by (simp add: surface_simps)
    have len: "length (patches new) = length ?ps" using new(3) Returned by simp
    obtain t where t: "draw_petal_texts (PETAL_LABEL_COORDS E N) (kw_fontsize args)
        (kw_petal_labels args) ax' = ax' @ t" "patches t = []"
      using draw_petal_texts_patches by blast
    obtain l where l: "draw_legend (kw_dataset_labels args) (kw_legend_loc args) (kw_fontsize args)
        (ax' @ t) = (ax' @ t) @ l" "patches l = []"
      using draw_legend_patches by blast
    have r: "draw_venn_body E args ax = Returned (ax @ (new @ t @ l))"
      unfolding body Returned using t(1) l(1) ax' by simp
    have "patches (new @ t @ l) = patches new"
      using t(2) l(2) by (simp add: patches_append)
    then show ?thesis
      using r new(2) len by (auto simp: surface_simps)
  qed
qed

lemma draw_venn_body_out_of_range:
  assumes "get_n_sets (kw_petal_labels args) (kw_dataset_labels args) = Inr N"
    and "N < 2 \<or> 6 < N"
  shows "draw_venn_body E args ax =
         Raised (ValueError ''Number of sets must be between 2 and 6'') ax"
proof -
  have sel: "(if 2 \<le> N \<and> N < 6 then Inr EllipseVariant
              else if N = 6 then Inr TriangleVariant
              else Inl (ValueError ''Number of sets must be between 2 and 6'')) =
        Inl (ValueError ''Number of sets must be between 2 and 6'')"
    using assms(2) by auto
  show ?thesis
    unfolding draw_venn_body_def assms(1) sum.case sel ..
qed

lemma draw_venn_variant:
  assumes "get_n_sets (kw_petal_labels args) (kw_dataset_labels args) = Inr N"
    and "(2 \<le> N \<and> N < 6 \<and> variant = EllipseVariant) \<or> (N = 6 \<and> variant = TriangleVariant)"
  shows "\<exists>new. surface (draw_venn E args ax) = styled ax @ new \<and>
           list_all (of_variant variant) (patches new) \<and>
           (\<forall>c. draw_venn E args ax = Returned c \<longrightarrow>
              length (patches new) =
              length (zip (SHAPE_COORDS E N)
                        (zip (SHAPE_DIMS E N) (zip (SHAPE_ANGLES E N) (kw_colors args)))))"
proof (cases "validate_draw E args")
  case None
  then have "draw_venn E args ax = draw_venn_body E args (styled ax)"
    by (simp add: draw_venn_decorated)
  then show ?thesis
    using draw_venn_body_variant [OF assms, of E "styled ax"] by simp
next
  case (Some e)
  then have "draw_venn E args ax = Raised e (styled ax)"
    by (simp add: draw_venn_decorated)
  then have "surface (draw_venn E args ax) = styled ax @ [] \<and>
      list_all (of_variant variant) (patches []) \<and>
      (\<forall>c. draw_venn E args ax \<noteq> Returned c)"
    by (simp add: surface_simps)
  then show ?thesis by blast
qed

text \<open>
  C5. With N the set count that \<^verbatim>\<open>get_n_sets\<close> confirms for a call of \<^verbatim>\<open>draw_venn\<close>:
  for N from 2 to 5 every shape added to the surface is an ellipse, for N = 6 every shape
  is a polygon, and when the call returns there is one shape for each entry of the zipped
  geometry tables and colours; for any other N the call raises with the surface as
  \<^verbatim>\<open>ensure_axes\<close> left it, no shape drawn, and the function itself raises the
  \<^verbatim>\<open>ValueError\<close> of the set count.
\<close>

theorem draw_venn_selects_shape:
  assumes "get_n_sets (kw_petal_labels args) (kw_dataset_labels args) = Inr N"
  shows "(2 \<le> N \<and> N \<le> 5 \<longrightarrow>
            (\<exists>new. surface (draw_venn E args ax) = styled ax @ new \<and>
               list_all is_ellipse (patches new) \<and>
               (\<forall>c. draw_venn E args ax = Returned c \<longrightarrow>
                  length (patches new) =
                  length (zip (SHAPE_COORDS E N)
                            (zip (SHAPE_DIMS E N) (zip (SHAPE_ANGLES E N) (kw_colors args))))))) \<and>
         (N = 6 \<longrightarrow>
            (\<exists>new. surface (draw_venn E args ax) = styled ax @ new \<and>
               list_all is_polygon (patches new) \<and>
               (\<forall>c. draw_venn E args ax = Returned c \<longrightarrow>
                  length (patches new) =
                  length (zip (SHAPE_COORDS E N)
                            (zip (SHAPE_DIMS E N) (zip (SHAPE_ANGLES E N) (kw_colors args))))))) \<and>
         (N < 2 \<or> 6 < N \<longrightarrow>
            (\<exists>e. draw_venn E args ax = Raised e (styled ax)) \<and>
            draw_venn_body E args given =
              Raised (ValueError ''Number of sets must be between 2 and 6'') given)"
proof (intro conjI impI)
  assume "2 \<le> N \<and> N \<le> 5"
  then have "(2 \<le> N \<and> N < 6 \<and> EllipseVariant = EllipseVariant) \<or>
      (N = 6 \<and> EllipseVariant = TriangleVariant)" by simp
  from draw_venn_variant [OF assms this, of E ax]
  show "\<exists>new. surface (draw_venn E args ax) = styled ax @ new \<and>
               list_all is_ellipse (patches new) \<and>
               (\<forall>c. draw_venn E args ax = Returned c \<longrightarrow>
                  length (patches new) =
                  length (zip (SHAPE_COORDS E N)
                            (zip (SHAPE_DIMS E N) (zip (SHAPE_ANGLES E N) (kw_colors args)))))"
    unfolding of_variant_def shape_variant.case by (simp add: is_ellipse_def [abs_def])
next
  assume "N = 6"
  then have "(2 \<le> N \<and> N < 6 \<and> TriangleVariant = EllipseVariant) \<or>
      (N = 6 \<and> TriangleVariant = TriangleVariant)" by simp
  from draw_venn_variant [OF assms this, of E ax]
  show "\<exists>new. surface (draw_venn E args ax) = styled ax @ new \<and>
               list_all is_polygon (patches new) \<and>
               (\<forall>c. draw_venn E args ax = Returned c \<longrightarrow>
                  length (patches new) =
                  length (zip (SHAPE_COORDS E N)
                            (zip (SHAPE_DIMS E N) (zip (SHAPE_ANGLES E N) (kw_colors args)))))"
    unfolding of_variant_def shape_variant.case by (simp add: is_polygon_def [abs_def])
next
  assume out: "N < 2 \<or> 6 < N"
  show "draw_venn_body E args given =
      Raised (ValueError ''Number of sets must be between 2 and 6'') given"
    by (rule draw_venn_body_out_of_range [OF assms out])
  show "\<exists>e. draw_venn E args ax = Raised e (styled ax)"
    unfolding draw_venn_decorated draw_venn_body_out_of_range [OF assms out]
    by (cases "validate_draw E args") simp_all
qed


theorem draw_venn_selects_shape_witness:
  "get_n_sets (kw_petal_labels venn2_args) (kw_dataset_labels venn2_args) = Inr 2 \<and>
   list_all is_ellipse (patches (surface (draw_venn (example_env :: int env) venn2_args None))) \<and>
   length (patches (surface (draw_venn (example_env :: int env) venn2_args None))) = 2 \<and>
   get_n_sets (kw_petal_labels venn6_args) (kw_dataset_labels venn6_args) = Inr 6 \<and>
   list_all is_polygon (patches (surface (draw_venn (example_env :: int env) venn6_args None))) \<and>
   get_n_sets (kw_petal_labels venn7_args) (kw_dataset_labels venn7_args) = Inr 7 \<and>
   draw_venn_body (example_env :: int env) venn7_args [] =
     Raised (ValueError ''Number of sets must be between 2 and 6'') []"
proof -
  let ?E = "example_env :: int env"
  have n2: "get_n_sets (kw_petal_labels venn2_args) (kw_dataset_labels venn2_args) = Inr 2"
    by code_simp
  have n6: "get_n_sets (kw_petal_labels venn6_args) (kw_dataset_labels venn6_args) = Inr 6"
    by code_simp
  have n7: "get_n_sets (kw_petal_labels venn7_args) (kw_dataset_labels venn7_args) = Inr 7"
    by code_simp
  have st: "patches (styled None) = []" by (simp add: styled_def)
  have range2: "(2::nat) \<le> 2 \<and> (2::nat) \<le> 5" by simp
  have range7: "(7::nat) < 2 \<or> (6::nat) < 7" by simp
  obtain new2 where new2: "surface (draw_venn ?E venn2_args None) = styled None @ new2"
    "list_all is_ellipse (patches new2)"
    "\<forall>c. draw_venn ?E venn2_args None = Returned c \<longrightarrow>
        length (patches new2) =
        length (zip (SHAPE_COORDS ?E 2)
                  (zip (SHAPE_DIMS ?E 2) (zip (SHAPE_ANGLES ?E 2) (kw_colors venn2_args))))"
    using draw_venn_selects_shape [OF n2, of ?E None, THEN conjunct1, THEN mp, OF range2]
    by blast
  have "case draw_venn ?E venn2_args None of Returned c \<Rightarrow> True | Raised e c \<Rightarrow> False"
    by code_simp
  then have r2: "\<exists>c. draw_venn ?E venn2_args None = Returned c"
    by (cases "draw_venn ?E venn2_args None") simp_all
  have l2: "length (zip (SHAPE_COORDS ?E 2)
                  (zip (SHAPE_DIMS ?E 2) (zip (SHAPE_ANGLES ?E 2) (kw_colors venn2_args)))) = 2"
    by code_simp
  have a: "list_all is_ellipse (patches (surface (draw_venn ?E venn2_args None)))"
    unfolding new2(1) patches_append st using new2(2) by simp
  have b: "length (patches (surface (draw_venn ?E venn2_args None))) = 2"
    unfolding new2(1) patches_append st using new2(3) r2 l2 by (metis append_Nil)
  obtain new6 where new6: "surface (draw_venn ?E venn6_args None) = styled None @ new6"
    "list_all is_polygon (patches new6)"
    using draw_venn_selects_shape [OF n6, of ?E None, THEN conjunct2, THEN conjunct1, THEN mp, OF refl]
    by blast
  have c: "list_all is_polygon (patches (surface (draw_venn ?E venn6_args None)))"
    unfolding new6(1) patches_append st using new6(2) by simp
  have d: "draw_venn_body ?E venn7_args [] =
     Raised (ValueError ''Number of sets must be between 2 and 6'') []"
    using draw_venn_selects_shape [OF n7, of ?E None "[]", THEN conjunct2, THEN conjunct2, THEN mp,
        OF range7]
    by blast
  show ?thesis
    by (intro conjI) (fact n2 a b n6 c n7 d)+
qed

lemma draw_pseudovenn6_decorated:
  "draw_pseudovenn6 E args ax =
     (case validate_draw E args of
        Some e \<Rightarrow> Raised e (styled ax)
      | None \<Rightarrow> draw_pseudovenn6_body E args (styled ax))"
  unfolding draw_pseudovenn6_def ensure_axes_def validate_arguments_def styled_def ..

lemma draw_circles_returns:
  "\<forall>color \<in> set (map snd ps). \<exists>edge. less_transparent_color E color = Inr edge \<Longrightarrow>
   \<exists>c. draw_circles E ps ax = Returned c"
proof (induction ps arbitrary: ax)
  case Nil
  show ?case by simp
next
  case (Cons q ps)
  obtain step color where q: "q = (step, color)" by (cases q)
  obtain edge where e: "less_transparent_color E color = Inr edge"
    using Cons.prems q by auto
  have rest: "\<forall>color \<in> set (map snd ps). \<exists>edge. less_transparent_color E color = Inr edge"
    using Cons.prems by simp
  show ?case
    unfolding q using Cons.IH [OF rest] by (simp add: Let_def draw_ellipse_def e)
qed

lemma petals_without_hints:
  "\<exists>c. draw_pseudovenn6_petals table False fontsize petal_labels items hidden ax = (Inr hidden, c)"
proof (induction items arbitrary: ax)
  case Nil
  show ?case by simp
next
  case (Cons q items)
  obtain logic lab where q: "q = (logic, lab)" by (cases q)
  show ?case
  proof (cases "table logic")
    case None
    then show ?thesis unfolding q using Cons.IH [of ax] by simp
  next
    case (Some xy)
    obtain x y where xy: "xy = (x, y)" by (cases xy)
    show ?thesis unfolding q using Some xy Cons.IH [of "ax @ [Text x y lab fontsize]"] by simp
  qed
qed

lemma draw_pseudovenn6_steps_returns:
  assumes "\<not> kw_hint_hidden args"
    and "\<forall>color \<in> set (kw_colors args). \<exists>edge. less_transparent_color E color = Inr edge"
  shows "\<exists>c. draw_pseudovenn6_steps E args n ax = Returned c"
proof -
  have "set (map snd (zip [0..<6] (kw_colors args))) \<subseteq> set (kw_colors args)"
    by (auto dest: set_zip_rightD)
  then have "\<forall>color \<in> set (map snd (zip [0..<6] (kw_colors args))).
      \<exists>edge. less_transparent_color E color = Inr edge"
    using assms(2) by blast
  then obtain ax1 where c: "draw_circles E (zip [0..<6] (kw_colors args)) ax = Returned ax1"
    using draw_circles_returns by blast
  obtain ax2 where p: "draw_pseudovenn6_petals (PSEUDOVENN_PETAL_COORDS E 6) False (kw_fontsize args)
      (kw_petal_labels args) (kw_petal_labels args) [] ax1 = (Inr [], ax2)"
    using petals_without_hints by blast
  show ?thesis
    unfolding draw_pseudovenn6_steps_def using assms(1) by (simp add: c p)
qed

text \<open>
  C8. With N the set count that \<^verbatim>\<open>get_n_sets\<close> confirms for a call of the pseudo-Venn
  composer: for every N other than 6 the function raises \<^verbatim>\<open>NotImplementedError\<close> with
  the surface as it got it, and the decorated call raises with the surface as
  \<^verbatim>\<open>ensure_axes\<close> left it, no shape drawn; for N = 6 the check is passed, the result is
  that of the drawing steps, and without hints and with colours the library converts
  the call returns.
\<close>

theorem draw_pseudovenn6_only_six:
  assumes "get_n_sets (kw_petal_labels args) (kw_dataset_labels args) = Inr N"
  shows "(N \<noteq> 6 \<longrightarrow>
            draw_pseudovenn6_body E args given =
              Raised (NotImplementedError ''Pseudovenn implemented only for 6 sets'') given \<and>
            (\<exists>e. draw_pseudovenn6 E args ax = Raised e (styled ax)) \<and>
            (validate_draw E args = None \<longrightarrow>
               draw_pseudovenn6 E args ax =
                 Raised (NotImplementedError ''Pseudovenn implemented only for 6 sets'')
                   (styled ax))) \<and>
         (N = 6 \<longrightarrow>
            draw_pseudovenn6_body E args given = draw_pseudovenn6_steps E args 6 given \<and>
            (\<not> kw_hint_hidden args \<and>
             (\<forall>color \<in> set (kw_colors args). \<exists>edge. less_transparent_color E color = Inr edge) \<longrightarrow>
               (\<exists>c. draw_pseudovenn6_body E args given = Returned c)))"
proof (intro conjI impI)
  assume n: "N \<noteq> 6"
  show b: "draw_pseudovenn6_body E args c =
      Raised (NotImplementedError ''Pseudovenn implemented only for 6 sets'') c" for c
    unfolding draw_pseudovenn6_body_def assms using n by simp
  show "\<exists>e. draw_pseudovenn6 E args ax = Raised e (styled ax)"
    unfolding draw_pseudovenn6_decorated b by (cases "validate_draw E args") simp_all
  show "draw_pseudovenn6 E args ax =
      Raised (NotImplementedError ''Pseudovenn implemented only for 6 sets'') (styled ax)"
    if "validate_draw E args = None"
    unfolding draw_pseudovenn6_decorated b using that by simp
next
  assume n: "N = 6"
  show b: "draw_pseudovenn6_body E args given = draw_pseudovenn6_steps E args 6 given"
    unfolding draw_pseudovenn6_body_def assms using n by simp
  show "\<exists>c. draw_pseudovenn6_body E args given = Returned c"
    if "\<not> kw_hint_hidden args \<and>
        (\<forall>color \<in> set (kw_colors args). \<exists>edge. less_transparent_color E color = Inr edge)"
    unfolding b using that draw_pseudovenn6_steps_returns [of args E 6 given] by blast
qed

theorem draw_pseudovenn6_only_six_witness:
  "get_n_sets (kw_petal_labels venn7_args) (kw_dataset_labels venn7_args) = Inr 7 \<and>
   draw_pseudovenn6 (example_env :: int env) venn7_args None =
     Raised (NotImplementedError ''Pseudovenn implemented only for 6 sets'') [StyleAxes] \<and>
   get_n_sets (kw_petal_labels venn6_args) (kw_dataset_labels venn6_args) = Inr 6 \<and>
   (\<exists>c. draw_pseudovenn6_body (example_env :: int env) venn6_args [] = Returned c)"
proof -
  let ?E = "example_env :: int env"
  have n7: "get_n_sets (kw_petal_labels venn7_args) (kw_dataset_labels venn7_args) = Inr 7"
    by code_simp
  have n6: "get_n_sets (kw_petal_labels venn6_args) (kw_dataset_labels venn6_args) = Inr 6"
    by code_simp
  have v: "validate_draw ?E venn7_args = None" by (simp add: example_env_def)
  have s: "styled None = [StyleAxes]" by (simp add: styled_def)
  have ne7: "(7::nat) \<noteq> 6" by simp
  have a: "draw_pseudovenn6 ?E venn7_args None =
     Raised (NotImplementedError ''Pseudovenn implemented only for 6 sets'') [StyleAxes]"
    using draw_pseudovenn6_only_six [OF n7, of ?E "[]" None, THEN conjunct1, THEN mp, OF ne7] v
    unfolding s by blast
  have h: "\<not> kw_hint_hidden venn6_args" by (simp add: venn6_args_def)
  have c1: "less_transparent_color ?E (RGBA (1, 0, 0, 0.4)) = Inr (1, 0, 0, 0.7)" by code_simp
  have c2: "less_transparent_color ?E (RGBA (0, 0, 1, 0.4)) = Inr (0, 0, 1, 0.7)" by code_simp
  have k: "kw_colors venn6_args = [RGBA (1, 0, 0, 0.4), RGBA (0, 0, 1, 0.4)]"
    unfolding venn6_args_def by (rule draw_args.select_convs)
  have cs: "\<forall>color \<in> set (kw_colors venn6_args). \<exists>edge. less_transparent_color ?E color = Inr edge"
  proof
    fix color assume "color \<in> set (kw_colors venn6_args)"
    then have "color = RGBA (1, 0, 0, 0.4) \<or> color = RGBA (0, 0, 1, 0.4)"
      unfolding k by (simp only: list.set insert_iff empty_iff simp_thms)
    then show "\<exists>edge. less_transparent_color ?E color = Inr edge"
      using c1 c2 by blast
  qed
  have b: "\<exists>c. draw_pseudovenn6_body ?E venn6_args [] = Returned c"
    using draw_pseudovenn6_only_six [OF n6, of ?E "[]" None, THEN conjunct2, THEN mp, OF refl] h cs
    by blast
  show ?thesis
    by (intro conjI) (fact n7 a n6 b)+
qed


lemma pseudovenn_decorated:
  "pseudovenn E a ax =
     (case validate_venn E a of
        Some e \<Rightarrow> Raised e (styled ax)
      | None \<Rightarrow>
          venn_dispatch E (arg_data a) DrawPseudovenn6 (arg_petal_labels a) (arg_fmt a)
            (arg_hint_hidden a) (arg_fontsize a) (arg_cmap a) (arg_alpha a) (arg_legend_loc a)
            (styled ax))"
  unfolding pseudovenn_def ensure_axes_def validate_arguments_def styled_def ..

lemma venn_dispatch_unsupported:
  assumes "hint_hidden" and "fmt = Some f" and "f \<noteq> ''{size}''"
  shows "venn_dispatch E data DrawPseudovenn6 petal_labels fmt hint_hidden fontsize cmap alpha
           legend_loc ax =
         Raised (NotImplementedError
                   (''To use fmt='' @ [CHR 0x27] @ f @ [CHR 0x27] @ '', set hint_hidden=False''))
           ax"
  unfolding venn_dispatch_def using assms by simp

text \<open>
  C9. When the dispatcher is called for the pseudo-Venn composer with \<^verbatim>\<open>hint_hidden\<close>
  enabled and a template that is neither absent nor \<^verbatim>\<open>{size}\<close>, it raises
  \<^verbatim>\<open>NotImplementedError\<close> with the surface as it got it, whatever the data, the given
  labels and the library do: no label is computed and nothing is drawn. The entry point
  \<^verbatim>\<open>pseudovenn\<close> raises as well, with the surface as \<^verbatim>\<open>ensure_axes\<close> left it.
\<close>

theorem venn_dispatch_rejects_template:
  assumes "hint_hidden" and "fmt = Some f" and "f \<noteq> ''{size}''"
  shows "venn_dispatch E data DrawPseudovenn6 petal_labels fmt hint_hidden fontsize cmap alpha
           legend_loc ax =
         Raised (NotImplementedError
                   (''To use fmt='' @ [CHR 0x27] @ f @ [CHR 0x27] @ '', set hint_hidden=False''))
           ax \<and>
         (arg_hint_hidden a \<and> arg_fmt a = Some f \<longrightarrow>
            (\<exists>e. pseudovenn E a given = Raised e (styled given)) \<and>
            (validate_venn E a = None \<longrightarrow>
               pseudovenn E a given =
                 Raised (NotImplementedError
                           (''To use fmt='' @ [CHR 0x27] @ f @ [CHR 0x27] @
                            '', set hint_hidden=False''))
                   (styled given)))"
proof (intro conjI impI)
  show "venn_dispatch E data DrawPseudovenn6 petal_labels fmt hint_hidden fontsize cmap alpha
           legend_loc ax =
         Raised (NotImplementedError
                   (''To use fmt='' @ [CHR 0x27] @ f @ [CHR 0x27] @ '', set hint_hidden=False''))
           ax"
    using assms by (rule venn_dispatch_unsupported)
next
  assume a: "arg_hint_hidden a \<and> arg_fmt a = Some f"
  have d: "venn_dispatch E (arg_data a) DrawPseudovenn6 (arg_petal_labels a) (arg_fmt a)
            (arg_hint_hidden a) (arg_fontsize a) (arg_cmap a) (arg_alpha a) (arg_legend_loc a)
            (styled given) =
         Raised (NotImplementedError
                   (''To use fmt='' @ [CHR 0x27] @ f @ [CHR 0x27] @ '', set hint_hidden=False''))
           (styled given)"
    using a assms(3) by (intro venn_dispatch_unsupported) simp_all
  show "\<exists>e. pseudovenn E a given = Raised e (styled given)"
    unfolding pseudovenn_decorated d by (cases "validate_venn E a") simp_all
  show "pseudovenn E a given =
      Raised (NotImplementedError
                (''To use fmt='' @ [CHR 0x27] @ f @ [CHR 0x27] @ '', set hint_hidden=False''))
        (styled given)" if "validate_venn E a = None"
    unfolding pseudovenn_decorated d using that by simp
qed

theorem venn_dispatch_rejects_template_witness:
  "pseudovenn example_env (pseudovenn_args (Some ''{logic}'')) None =
     Raised (NotImplementedError (''To use fmt='' @ [CHR 0x27] @ ''{logic}'' @ [CHR 0x27] @
                                   '', set hint_hidden=False''))
       [StyleAxes] \<and>
   venn_dispatch example_env six_sets DrawPseudovenn6 None (Some ''{logic}'') True 13
     (CmapName ''gray'') (Some 0.4) None [] =
     Raised (NotImplementedError (''To use fmt='' @ [CHR 0x27] @ ''{logic}'' @ [CHR 0x27] @
                                   '', set hint_hidden=False'')) []"
proof -
  let ?a = "pseudovenn_args (Some ''{logic}'')"
  have h1: "True" by simp
  have h2: "Some ''{logic}'' = Some ''{logic}''" by simp
  have h3: "''{logic}'' \<noteq> ''{size}''" by simp
  note t = venn_dispatch_rejects_template [OF h1 h2 h3, of example_env six_sets None 13
      "CmapName ''gray''" "Some 0.4" None "[]" ?a None]
  have a: "arg_hint_hidden ?a \<and> arg_fmt ?a = Some ''{logic}''"
    by (simp add: pseudovenn_args_def)
  have v: "validate_venn example_env ?a = None" by (simp add: example_env_def)
  have s: "styled None = [StyleAxes]" by (simp add: styled_def)
  have p: "pseudovenn example_env ?a None =
     Raised (NotImplementedError (''To use fmt='' @ [CHR 0x27] @ ''{logic}'' @ [CHR 0x27] @
                                   '', set hint_hidden=False''))
       [StyleAxes]"
    using t [THEN conjunct2, THEN mp, OF a, THEN conjunct2, THEN mp, OF v] unfolding s .
  show ?thesis
    using t [THEN conjunct1] p by (intro conjI)
qed


lemma map_result_set:
  "map_result f xs = Inr ys \<Longrightarrow> y \<in> set ys \<Longrightarrow> \<exists>x \<in> set xs. f x = Inr y"
proof (induction xs arbitrary: ys)
  case Nil
  then show ?case by simp
next
  case (Cons x xs)
  then show ?case by (auto split: sum.splits)
qed

lemma generate_colors_guard:
  assumes "n_colors = NotAnInt \<or> (\<exists>n. n_colors = PyInt n \<and> (n < 2 \<or> 6 < n))"
  shows "generate_colors E cmap n_colors alpha =
         Inl (ValueError ''n_colors must be an integer between 2 and 6'')"
  using assms unfolding generate_colors_def by (cases n_colors) auto

lemma generate_colors_list:
  assumes "2 \<le> n" "n \<le> 6"
  shows "generate_colors E (ColorList cs) (PyInt n) alpha =
         (case map_result (\<lambda>color. to_rgba E color alpha) cs of
            Inl e \<Rightarrow> Inl e
          | Inr colors \<Rightarrow> Inr (take (nat n) colors))"
  using assms unfolding generate_colors_def by simp

lemma generate_colors_cmap:
  assumes "2 \<le> n" "n \<le> 6"
  shows "generate_colors E (CmapName name) (PyInt n) alpha =
         (case cmap_to_rgba E name (nat n) alpha of
            Inl e \<Rightarrow> Inl e
          | Inr colors \<Rightarrow> Inr (take (nat n) colors))"
  using assms unfolding generate_colors_def by simp

text \<open>
  C6, as the code has it. \<^verbatim>\<open>generate_colors\<close> raises \<^verbatim>\<open>ValueError\<close> whenever
  \<^verbatim>\<open>n_colors\<close> is not an integer or lies outside 2 to 6, whatever the other arguments.
  For an integer from 2 to 6 and an alpha value, whenever it returns: for a colormap
  identifier it returns exactly \<^verbatim>\<open>n_colors\<close> tuples; for an explicit list it returns the
  conversions of the first \<^verbatim>\<open>n_colors\<close> entries, so as many tuples as the smaller of
  \<^verbatim>\<open>n_colors\<close> and the length of the list; each tuple has the alpha value as its fourth
  element. This takes the two library conversions at their contract: a conversion that
  succeeds carries the alpha it was given, and the sampling of a colormap gives one tuple
  for each sample.
\<close>

theorem generate_colors_count:
  assumes "\<forall>color c. to_rgba E color (Some a) = Inr c \<longrightarrow> alpha_of c = a"
    and "\<forall>name k cs. cmap_to_rgba E name k (Some a) = Inr cs \<longrightarrow>
           length cs = k \<and> (\<forall>c \<in> set cs. alpha_of c = a)"
  shows "(n_colors = NotAnInt \<or> (\<exists>n. n_colors = PyInt n \<and> (n < 2 \<or> 6 < n)) \<longrightarrow>
            generate_colors E cmap n_colors alpha =
              Inl (ValueError ''n_colors must be an integer between 2 and 6'')) \<and>
         (\<forall>n colors.
            n_colors = PyInt n \<and> 2 \<le> n \<and> n \<le> 6 \<and>
            generate_colors E cmap n_colors (Some a) = Inr colors \<longrightarrow>
              length colors =
                (case cmap of
                   ColorList listed \<Rightarrow> min (nat n) (length listed)
                 | CmapName name \<Rightarrow> nat n) \<and>
              (\<forall>c \<in> set colors. alpha_of c = a))"
proof (intro conjI impI allI)
  assume "n_colors = NotAnInt \<or> (\<exists>n. n_colors = PyInt n \<and> (n < 2 \<or> 6 < n))"
  then show "generate_colors E cmap n_colors alpha =
      Inl (ValueError ''n_colors must be an integer between 2 and 6'')"
    by (rule generate_colors_guard)
next
  fix n colors
  assume h: "n_colors = PyInt n \<and> 2 \<le> n \<and> n \<le> 6 \<and>
            generate_colors E cmap n_colors (Some a) = Inr colors"
  then have n: "2 \<le> n" "n \<le> 6" and g: "generate_colors E cmap (PyInt n) (Some a) = Inr colors"
    by auto
  have "length colors =
                (case cmap of
                   ColorList listed \<Rightarrow> min (nat n) (length listed)
                 | CmapName name \<Rightarrow> nat n) \<and>
              (\<forall>c \<in> set colors. alpha_of c = a)"
  proof (cases cmap)
    case (ColorList listed)
    obtain full where full: "map_result (\<lambda>color. to_rgba E color (Some a)) listed = Inr full"
      and c: "colors = take (nat n) full"
      using g unfolding ColorList generate_colors_list [OF n] by (auto split: sum.splits)
    have len: "length full = length listed" by (rule map_result_length [OF full])
    have "alpha_of x = a" if "x \<in> set full" for x
      using map_result_set [OF full that] assms(1) by blast
    then have "\<forall>x \<in> set colors. alpha_of x = a"
      unfolding c by (meson in_set_takeD)
    then show ?thesis using ColorList c len by simp
  next
    case (CmapName name)
    obtain full where full: "cmap_to_rgba E name (nat n) (Some a) = Inr full"
      and c: "colors = take (nat n) full"
      using g unfolding CmapName generate_colors_cmap [OF n] by (auto split: sum.splits)
    have "length full = nat n" "\<forall>x \<in> set full. alpha_of x = a"
      using assms(2) full by blast+
    then show ?thesis using CmapName c by simp
  qed
  then show "length colors =
                (case cmap of
                   ColorList listed \<Rightarrow> min (nat n) (length listed)
                 | CmapName name \<Rightarrow> nat n)"
    and "\<forall>c \<in> set colors. alpha_of c = a" by simp_all
qed

theorem generate_colors_count_counterexample:
  "generate_colors (example_env :: int env) (ColorList [ColorName ''red'']) (PyInt 3) (Some (2 / 5)) =
     Inr [(1, 0, 0, 2 / 5)] \<and>
   length [(1 :: real, 0 :: real, 0 :: real, 2 / 5 :: real)] \<noteq> 3"
  by code_simp

theorem generate_colors_count_witness:
  "generate_colors (example_env :: int env) (CmapName ''gray'') (PyInt 7) (Some (2 / 5)) =
     Inl (ValueError ''n_colors must be an integer between 2 and 6'') \<and>
   generate_colors (example_env :: int env) (CmapName ''gray'') (PyInt 1) (Some (2 / 5)) =
     Inl (ValueError ''n_colors must be an integer between 2 and 6'') \<and>
   generate_colors (example_env :: int env) (CmapName ''gray'') NotAnInt (Some (2 / 5)) =
     Inl (ValueError ''n_colors must be an integer between 2 and 6'') \<and>
   generate_colors (example_env :: int env) (CmapName ''gray'') (PyInt 3) (Some (2 / 5)) =
     Inr [(0, 0, 0, 2 / 5), (1 / 2, 1 / 2, 1 / 2, 2 / 5), (1, 1, 1, 2 / 5)] \<and>
   length [(0 :: real, 0 :: real, 0 :: real, 2 / 5 :: real), (1 / 2, 1 / 2, 1 / 2, 2 / 5),
           (1, 1, 1, 2 / 5)] = nat 3"
proof -
  let ?E = "example_env :: int env" and ?a = "2 / 5 :: real"
  have c1: "\<forall>color c. to_rgba ?E color (Some ?a) = Inr c \<longrightarrow> alpha_of c = ?a"
  proof (intro allI impI)
    fix color c assume "to_rgba ?E color (Some ?a) = Inr c"
    then have "example_to_rgba color (Some ?a) = Inr c" by (simp add: example_env_def)
    then show "alpha_of c = ?a"
      unfolding example_to_rgba_def alpha_of_def
      by (cases color) (auto split: if_splits prod.splits)
  qed
  have c2: "\<forall>name k cs. cmap_to_rgba ?E name k (Some ?a) = Inr cs \<longrightarrow>
           length cs = k \<and> (\<forall>c \<in> set cs. alpha_of c = ?a)"
  proof (intro allI impI)
    fix name k cs assume "cmap_to_rgba ?E name k (Some ?a) = Inr cs"
    then have "example_cmap name k (Some ?a) = Inr cs" by (simp add: example_env_def)
    then show "length cs = k \<and> (\<forall>c \<in> set cs. alpha_of c = ?a)"
      unfolding example_cmap_def alpha_of_def by (auto split: if_splits)
  qed
  note t = generate_colors_count [OF c1 c2]
  have r7: "PyInt 7 = NotAnInt \<or> (\<exists>n. PyInt 7 = PyInt n \<and> (n < 2 \<or> 6 < n))" by simp
  have r1: "PyInt 1 = NotAnInt \<or> (\<exists>n. PyInt 1 = PyInt n \<and> (n < 2 \<or> 6 < n))" by simp
  have r0: "NotAnInt = NotAnInt \<or> (\<exists>n. NotAnInt = PyInt n \<and> (n < 2 \<or> 6 < n))" by simp
  have g: "generate_colors ?E (CmapName ''gray'') (PyInt 3) (Some ?a) =
     Inr [(0, 0, 0, 2 / 5), (1 / 2, 1 / 2, 1 / 2, 2 / 5), (1, 1, 1, 2 / 5)]"
    by code_simp
  have h: "PyInt 3 = PyInt 3 \<and> (2::int) \<le> 3 \<and> (3::int) \<le> 6 \<and>
      generate_colors ?E (CmapName ''gray'') (PyInt 3) (Some ?a) =
        Inr [(0, 0, 0, 2 / 5), (1 / 2, 1 / 2, 1 / 2, 2 / 5), (1, 1, 1, 2 / 5)]"
    using g by simp
  have l: "length [(0 :: real, 0 :: real, 0 :: real, 2 / 5 :: real), (1 / 2, 1 / 2, 1 / 2, 2 / 5),
           (1, 1, 1, 2 / 5)] = nat 3"
    using t [of "PyInt 3" "CmapName ''gray''", THEN conjunct2, rule_format, OF h, THEN conjunct1]
    by simp
  show ?thesis
    by (intro conjI)
      (fact t [of "PyInt 7" "CmapName ''gray''" "Some ?a", THEN conjunct1, THEN mp, OF r7]
            t [of "PyInt 1" "CmapName ''gray''" "Some ?a", THEN conjunct1, THEN mp, OF r1]
            t [of NotAnInt "CmapName ''gray''" "Some ?a", THEN conjunct1, THEN mp, OF r0]
            g l)+
qed


end
